theory Spec2Isabelle
  imports Main "HOL-Library.Multiset" "HOL-Library.AList" "HOL-Library.List_Lexorder" "HOL-Library.Char_ord"
begin

section \<open>Resource identifiers and errors\<close>

text \<open>
  \<^verbatim>\<open>core.ResourceId\<close> / \<^verbatim>\<open>construct.ResourceId\<close>: the tuple
  (provider, type, namespace, name).
\<close>

record ResourceId =
  Provider :: string
  Type :: string
  Namespace :: string
  Name :: string

text \<open>
  \<^verbatim>\<open>knowledgebase.Edge\<close>: an entry of the knowledge base links two resource types
  (\<^verbatim>\<open>reflect.Type\<close>, here the name of the type).
\<close>

type_synonym rtype = string

record Edge =
  Source :: rtype
  Destination :: rtype

text \<open>
  \<^verbatim>\<open>core.Resource\<close>: a resource has a Go type (\<^verbatim>\<open>reflect.TypeOf\<close>) and an id
  (\<^verbatim>\<open>Id()\<close>).
\<close>

record Resource =
  TypeOf :: rtype
  Id :: ResourceId

text \<open>
  Go errors as values. \<open>Opaque\<close> stands for an error produced by a collaborator that is not
  part of the modelled code; the other constructors are the \<^verbatim>\<open>fmt.Errorf\<close> calls of the
  modelled functions. \<^verbatim>\<open>errors.Join\<close> and \<^verbatim>\<open>multierr.Error\<close> are lists of
  errors; the empty list is the nil error.
\<close>

datatype 'c err =
    Opaque string
  | NotOperational ResourceId
  | UnsatisfiedConstraints "'c list"
  | SolvingErrors "'c err list"
  | Joined "'c err list"
  | EdgeDataFormat ResourceId ResourceId
  | MultiplePaths ResourceId ResourceId "Edge list list"
  | NoPaths ResourceId ResourceId "Edge list list"
  | UnableToCastEdgeData ResourceId ResourceId
  | NoResourcesForConstruct ResourceId
  | UnableToFindResource ResourceId
  | Panic string
  | CouldNotFindShortestPath ResourceId ResourceId "'c err"
  | ErrVertexAlreadyExists
  | ErrEdgeAlreadyExists
  | WalkGraphError string "'c err list"

text \<open>
  \<^verbatim>\<open>multierr.Error\<close>: \<^verbatim>\<open>Append\<close> ignores nil, \<^verbatim>\<open>ErrOrNil\<close> is nil when empty.
  \<^verbatim>\<open>errors.Join(errs, err)\<close> ignores a nil \<^verbatim>\<open>err\<close> in the same way.
\<close>

definition merr_Append :: "'c err list \<Rightarrow> 'c err option \<Rightarrow> 'c err list" where
  "merr_Append merr er = (case er of None \<Rightarrow> merr | Some x \<Rightarrow> merr @ [x])"


section \<open>The engine: \<^verbatim>\<open>Engine.SolveGraph\<close> (pkg/engine/engine.go)\<close>

text \<open>
  The collaborators \<^verbatim>\<open>SolveGraph\<close> calls are not part of the modelled source
  (\<^verbatim>\<open>expandEdges\<close>, \<^verbatim>\<open>KnowledgeBase.ConfigureEdge\<close>,
  \<^verbatim>\<open>MakeResourcesOperational\<close>, \<^verbatim>\<open>Constraint.IsSatisfied\<close> behind
  \<^verbatim>\<open>ValidateConstraints\<close>, and the graph's \<^verbatim>\<open>ListDependencies\<close> and
  \<^verbatim>\<open>ListResources\<close>). They are the fields of the record \<open>Engine\<close>; the graph
  \<^verbatim>\<open>*core.ResourceGraph\<close> they mutate in place is passed and returned explicitly.
  \<open>Getenv\<close> is the process environment (\<^verbatim>\<open>os.Getenv\<close>), which every Go function
  can read.
\<close>

record ('g, 'c, 'm) Engine =
  expandEdges :: "'g \<Rightarrow> 'g \<times> 'c err option"
  ListDependencies :: "'g \<Rightarrow> (ResourceId \<times> ResourceId) list"
  ConfigureEdge :: "ResourceId \<times> ResourceId \<Rightarrow> 'g \<Rightarrow> 'g \<times> 'c err option"
  MakeResourcesOperational :: "'g \<Rightarrow> 'g \<times> (ResourceId \<Rightarrow> bool) \<times> 'c err option"
  ValidateConstraints :: "'m \<Rightarrow> 'g \<Rightarrow> 'c list"
  ListResources :: "'g \<Rightarrow> ResourceId list"
  Getenv :: "string \<Rightarrow> string"

record ('g, 'm) SolveContext =
  ResourceGraph :: 'g
  constructsMapping :: 'm

text \<open>The local variables of \<^verbatim>\<open>SolveGraph\<close> that live across iterations.\<close>

record ('g, 'c) solve_state =
  graph :: 'g
  configuredEdges :: "(ResourceId \<times> ResourceId) set"
  errorMap :: "nat \<Rightarrow> 'c err list"

definition NUM_LOOPS :: nat where
  "NUM_LOOPS = 5"

definition record_error :: "nat \<Rightarrow> 'c err \<Rightarrow> ('g, 'c) solve_state \<Rightarrow> ('g, 'c) solve_state" where
  "record_error i e st = st\<lparr>errorMap := (errorMap st)(i := errorMap st i @ [e])\<rparr>"

text \<open>
  The loop over \<^verbatim>\<open>graph.ListDependencies()\<close> that configures every edge not yet in
  \<^verbatim>\<open>configuredEdges\<close>; a failing \<^verbatim>\<open>ConfigureEdge\<close> is recorded in
  \<^verbatim>\<open>errorMap[i]\<close> and the loop goes on.
\<close>

fun configure_edges ::
  "('g, 'c, 'm) Engine \<Rightarrow> nat \<Rightarrow> (ResourceId \<times> ResourceId) list \<Rightarrow> ('g, 'c) solve_state
    \<Rightarrow> ('g, 'c) solve_state" where
  "configure_edges e i [] st = st"
| "configure_edges e i (dep # deps) st =
     (if dep \<in> configuredEdges st then configure_edges e i deps st
      else (case ConfigureEdge e dep (graph st) of
              (g', Some er) \<Rightarrow> configure_edges e i deps (record_error i er (st\<lparr>graph := g'\<rparr>))
            | (g', None) \<Rightarrow>
                configure_edges e i deps
                  (st\<lparr>graph := g', configuredEdges := insert dep (configuredEdges st)\<rparr>)))"

text \<open>
  The first half of an iteration: \<^verbatim>\<open>expandEdges\<close>, and the configuration of the edges
  when it succeeded.
\<close>

definition expand_and_configure ::
  "('g, 'c, 'm) Engine \<Rightarrow> nat \<Rightarrow> ('g, 'c) solve_state \<Rightarrow> ('g, 'c) solve_state" where
  "expand_and_configure e i st =
     (case expandEdges e (graph st) of
        (g', Some er) \<Rightarrow> record_error i er (st\<lparr>graph := g'\<rparr>)
      | (g', None) \<Rightarrow> configure_edges e i (ListDependencies e g') (st\<lparr>graph := g'\<rparr>))"

text \<open>The errors \<^verbatim>\<open>resource %s is not operational\<close>, in the order of \<^verbatim>\<open>ListResources\<close>.\<close>

definition not_operational :: "(ResourceId \<Rightarrow> bool) \<Rightarrow> ResourceId list \<Rightarrow> 'c err list" where
  "not_operational operationalResources rs =
     map NotOperational (filter (\<lambda>r. \<not> operationalResources r) rs)"

text \<open>
  How one execution of the loop body ends: \<^verbatim>\<open>continue\<close> or falling off the end of the
  body (\<open>Continue\<close>), \<^verbatim>\<open>break\<close> (\<open>Break\<close>), or a \<^verbatim>\<open>return graph, err\<close>
  inside the loop (\<open>Return\<close>).
\<close>

datatype ('g, 'c) outcome =
    Continue "('g, 'c) solve_state"
  | Break "('g, 'c) solve_state"
  | Return "('g, 'c) solve_state" "'c err"

definition SolveGraph_body ::
  "('g, 'c, 'm) Engine \<Rightarrow> ('g, 'm) SolveContext \<Rightarrow> nat \<Rightarrow> ('g, 'c) solve_state
    \<Rightarrow> ('g, 'c) outcome" where
  "SolveGraph_body e context i st =
     (let st1 = expand_and_configure e i st in
      case MakeResourcesOperational e (graph st1) of
        (g', operationalResources, Some er) \<Rightarrow> Continue (record_error i er (st1\<lparr>graph := g'\<rparr>))
      | (g', operationalResources, None) \<Rightarrow>
          (let st2 = st1\<lparr>graph := g'\<rparr>;
               unsatisfiedConstraints = ValidateConstraints e (constructsMapping context) g'
           in if unsatisfiedConstraints \<noteq> [] \<and> i = NUM_LOOPS - 1
              then Return st2 (UnsatisfiedConstraints unsatisfiedConstraints)
              else (let st3 = st2\<lparr>errorMap := (errorMap st2)
                                 (i := errorMap st2 i
                                    @ not_operational operationalResources (ListResources e g'))\<rparr>
                    in if errorMap st3 i = [] then Break st3
                       else if i = NUM_LOOPS - 1 then Return st3 (SolvingErrors (errorMap st3 i))
                       else Continue st3)))"

text \<open>
  The loop \<^verbatim>\<open>for i := 0; i < NUM_LOOPS; i++\<close>. Besides the final state and the returned
  error, the function returns the number of times the body was entered (an observation
  for the statements about the iteration bound; the source has no such counter).
\<close>

function SolveGraph_loop ::
  "('g, 'c, 'm) Engine \<Rightarrow> ('g, 'm) SolveContext \<Rightarrow> nat \<Rightarrow> ('g, 'c) solve_state
    \<Rightarrow> ('g, 'c) solve_state \<times> 'c err option \<times> nat" where
  "SolveGraph_loop e context i st =
     (if i < NUM_LOOPS
      then (case SolveGraph_body e context i st of
              Continue st' \<Rightarrow> SolveGraph_loop e context (Suc i) st'
            | Break st' \<Rightarrow> (st', None, Suc i)
            | Return st' er \<Rightarrow> (st', Some er, Suc i))
      else (st, None, i))"
  by pat_completeness auto
termination
  by (relation "measure (\<lambda>(e, context, i, st). NUM_LOOPS - i)") auto

definition SolveGraph_init :: "('g, 'm) SolveContext \<Rightarrow> ('g, 'c) solve_state" where
  "SolveGraph_init context =
     \<lparr>graph = ResourceGraph context, configuredEdges = {}, errorMap = (\<lambda>i. [])\<rparr>"

definition SolveGraph_run ::
  "('g, 'c, 'm) Engine \<Rightarrow> ('g, 'm) SolveContext \<Rightarrow> ('g, 'c) solve_state \<times> 'c err option \<times> nat" where
  "SolveGraph_run e context = SolveGraph_loop e context 0 (SolveGraph_init context)"

text \<open>\<^verbatim>\<open>SolveGraph\<close> itself: the graph and the error it returns.\<close>

definition SolveGraph ::
  "('g, 'c, 'm) Engine \<Rightarrow> ('g, 'm) SolveContext \<Rightarrow> 'g \<times> 'c err option" where
  "SolveGraph e context =
     (case SolveGraph_run e context of (st, er, n) \<Rightarrow> (graph st, er))"

definition SolveGraph_iterations :: "('g, 'c, 'm) Engine \<Rightarrow> ('g, 'm) SolveContext \<Rightarrow> nat" where
  "SolveGraph_iterations e context = (case SolveGraph_run e context of (st, er, n) \<Rightarrow> n)"

text \<open>The state in which an outcome leaves the loop variables.\<close>

fun outcome_state :: "('g, 'c) outcome \<Rightarrow> ('g, 'c) solve_state" where
  "outcome_state (Continue s) = s"
| "outcome_state (Break s) = s"
| "outcome_state (Return s er) = s"

text \<open>
  The loop variables at the entry of iteration \<open>i\<close> of a call of \<^verbatim>\<open>SolveGraph\<close>,
  when the call gets that far: a name for "iteration \<open>i\<close> of the run" in the statements
  below.
\<close>

fun SolveGraph_state_at ::
  "('g, 'c, 'm) Engine \<Rightarrow> ('g, 'm) SolveContext \<Rightarrow> nat \<Rightarrow> ('g, 'c) solve_state option" where
  "SolveGraph_state_at e context 0 = Some (SolveGraph_init context)"
| "SolveGraph_state_at e context (Suc i) =
     (case SolveGraph_state_at e context i of
        None \<Rightarrow> None
      | Some s \<Rightarrow>
          (if i < NUM_LOOPS
           then (case SolveGraph_body e context i s of Continue s' \<Rightarrow> Some s' | _ \<Rightarrow> None)
           else None))"

text \<open>
  A family of concrete engines for evaluating the model. The graph is a counter of the calls
  of \<^verbatim>\<open>expandEdges\<close>, which fails until \<open>k\<close> calls were made;
  \<^verbatim>\<open>MakeResourcesOperational\<close> fails until \<open>m\<close> such calls were made; the constraints
  \<open>cs\<close> are never satisfied; the environment sets \<^verbatim>\<open>PLAN_ITERATIONS=1\<close>.
\<close>

definition example_engine :: "nat \<Rightarrow> nat \<Rightarrow> string list \<Rightarrow> (nat, string, unit) Engine" where
  "example_engine k m cs =
     \<lparr>expandEdges = (\<lambda>g. (Suc g, if g < k then Some (Opaque ''expand'') else None)),
      ListDependencies = (\<lambda>g. []),
      ConfigureEdge = (\<lambda>dep g. (g, None)),
      MakeResourcesOperational =
        (\<lambda>g. (g, (\<lambda>r. True), if g \<le> m then Some (Opaque ''operational'') else None)),
      ValidateConstraints = (\<lambda>mapping g. cs),
      ListResources = (\<lambda>g. []),
      Getenv = (\<lambda>k. if k = ''PLAN_ITERATIONS'' then ''1'' else [])\<rparr>"

definition example_context :: "(nat, unit) SolveContext" where
  "example_context = \<lparr>ResourceGraph = 0, constructsMapping = ()\<rparr>"

section \<open>The engine: \<^verbatim>\<open>Engine.Run\<close> (pkg/engine/engine.go)\<close>

text \<open>
  The steps of \<^verbatim>\<open>Run\<close> before the solve loop call \<^verbatim>\<open>ApplyApplicationConstraint\<close>,
  \<^verbatim>\<open>ApplyEdgeConstraint\<close>, \<^verbatim>\<open>ExpandConstructs\<close> and
  \<^verbatim>\<open>GenerateCombinations\<close>, which work on the engine's context (working state,
  expansion solutions, decisions): the type \<open>'w\<close>, passed and returned explicitly.
\<close>

record ('w, 'g, 'c, 'm, 'ac, 'ec) RunSteps =
  ApplyApplicationConstraint :: "'ac \<Rightarrow> 'w \<Rightarrow> 'w \<times> 'c err option"
  ApplyEdgeConstraint :: "'ec \<Rightarrow> 'w \<Rightarrow> 'w \<times> 'c err option"
  ExpandConstructs :: "'w \<Rightarrow> 'w \<times> 'c err option"
  GenerateCombinations :: "'w \<Rightarrow> ('g, 'm) SolveContext list \<times> 'c err option"

text \<open>The loop over the application constraints: the first error is returned.\<close>

fun apply_application_constraints ::
  "('w, 'g, 'c, 'm, 'ac, 'ec) RunSteps \<Rightarrow> 'ac list \<Rightarrow> 'w \<Rightarrow> 'w \<times> 'c err option" where
  "apply_application_constraints r [] w = (w, None)"
| "apply_application_constraints r (constraint # cs) w =
     (case ApplyApplicationConstraint r constraint w of
        (w', Some er) \<Rightarrow> (w', Some er)
      | (w', None) \<Rightarrow> apply_application_constraints r cs w')"

text \<open>The loop over the edge constraints: the errors are joined and the loop goes on.\<close>

fun apply_edge_constraints ::
  "('w, 'g, 'c, 'm, 'ac, 'ec) RunSteps \<Rightarrow> 'ec list \<Rightarrow> 'w \<Rightarrow> 'c err list
    \<Rightarrow> 'w \<times> 'c err list" where
  "apply_edge_constraints r [] w joinedErr = (w, joinedErr)"
| "apply_edge_constraints r (constraint # cs) w joinedErr =
     (case ApplyEdgeConstraint r constraint w of
        (w', Some er) \<Rightarrow> apply_edge_constraints r cs w' (joinedErr @ [er])
      | (w', None) \<Rightarrow> apply_edge_constraints r cs w' joinedErr)"

text \<open>
  Everything up to \<^verbatim>\<open>contextsToSolve, err := e.GenerateCombinations()\<close>: an error
  (\<^verbatim>\<open>return nil, err\<close>) or the engine context and the contexts to solve.
\<close>

definition Run_prepare ::
  "('w, 'g, 'c, 'm, 'ac, 'ec) RunSteps \<Rightarrow> 'ac list \<Rightarrow> 'ec list \<Rightarrow> 'w
    \<Rightarrow> 'c err + 'w \<times> ('g, 'm) SolveContext list" where
  "Run_prepare r applicationConstraints edgeConstraints w =
     (case apply_application_constraints r applicationConstraints w of
        (w1, Some er) \<Rightarrow> Inl er
      | (w1, None) \<Rightarrow>
          (case apply_edge_constraints r edgeConstraints w1 [] of
             (w2, joinedErr) \<Rightarrow>
               if joinedErr \<noteq> [] then Inl (Joined joinedErr)
               else (case ExpandConstructs r w2 of
                       (w3, Some er) \<Rightarrow> Inl er
                     | (w3, None) \<Rightarrow>
                         (case GenerateCombinations r w3 of
                            (contextsToSolve, Some er) \<Rightarrow> Inl er
                          | (contextsToSolve, None) \<Rightarrow> Inr (w3, contextsToSolve)))))"

text \<open>
  The solve loop. Its state is \<^verbatim>\<open>e.Context.Solution\<close> (\<open>None\<close> is nil) and the
  counter \<^verbatim>\<open>numValidGraphs\<close>; the error of \<^verbatim>\<open>SolveGraph\<close> is only logged.
\<close>

fun solve_contexts ::
  "('g, 'c, 'm) Engine \<Rightarrow> ('g, 'm) SolveContext list \<Rightarrow> 'g option \<Rightarrow> nat \<Rightarrow> 'g option \<times> nat" where
  "solve_contexts e [] Solution numValidGraphs = (Solution, numValidGraphs)"
| "solve_contexts e (context # cs) Solution numValidGraphs =
     (case SolveGraph e context of
        (solution, er) \<Rightarrow>
          solve_contexts e cs (if Solution = None then Some solution else Solution)
            (Suc numValidGraphs))"

text \<open>
  \<^verbatim>\<open>Run\<close>: the returned graph (\<open>None\<close> is nil) and error. \<open>Solution\<close> is
  \<^verbatim>\<open>e.Context.Solution\<close> when \<^verbatim>\<open>Run\<close> is called; \<^verbatim>\<open>LoadContext\<close> leaves it nil.
\<close>

definition Run ::
  "('w, 'g, 'c, 'm, 'ac, 'ec) RunSteps \<Rightarrow> ('g, 'c, 'm) Engine \<Rightarrow> 'ac list \<Rightarrow> 'ec list \<Rightarrow> 'w
    \<Rightarrow> 'g option \<Rightarrow> 'g option \<times> 'c err option" where
  "Run r e applicationConstraints edgeConstraints w Solution =
     (case Run_prepare r applicationConstraints edgeConstraints w of
        Inl er \<Rightarrow> (None, Some er)
      | Inr (w', contextsToSolve) \<Rightarrow>
          (fst (solve_contexts e contextsToSolve Solution 0), None))"

text \<open>
  Concrete steps for evaluating the model: no constraint fails, and the contexts to solve
  are the ones stored in the engine context.
\<close>

definition example_steps ::
  "((nat, unit) SolveContext list, nat, string, unit, unit, unit) RunSteps" where
  "example_steps =
     \<lparr>ApplyApplicationConstraint = (\<lambda>constraint w. (w, None)),
      ApplyEdgeConstraint = (\<lambda>constraint w. (w, None)),
      ExpandConstructs = (\<lambda>w. (w, None)),
      GenerateCombinations = (\<lambda>w. (w, None))\<rparr>"

definition context_from :: "nat \<Rightarrow> (nat, unit) SolveContext" where
  "context_from g = \<lparr>ResourceGraph = g, constructsMapping = ()\<rparr>"

section \<open>The knowledge base (pkg/knowledge\_base/edge\_kb.go)\<close>

text \<open>
  \<^verbatim>\<open>EdgeConstraint\<close> and \<^verbatim>\<open>EdgeData\<close>. A Go slice is nil or a list: \<open>None\<close> is
  the nil slice, which the code tells apart from an empty one
  (\<^verbatim>\<open>NodeMustExist != nil\<close>). The fields of \<^verbatim>\<open>EdgeData\<close> no modelled function reads
  (environment variables, routes, source reference) are left out.
\<close>

record kb_EdgeConstraint =
  NodeMustExist :: "Resource list option"
  NodeMustNotExist :: "Resource list option"

record EdgeData =
  AppName :: string
  Constraint :: kb_EdgeConstraint
  data_Source :: "Resource option"
  data_Destination :: "Resource option"

text \<open>The zero value \<^verbatim>\<open>EdgeData{}\<close>.\<close>

definition EdgeData_zero :: EdgeData where
  "EdgeData_zero =
     \<lparr>AppName = [], Constraint = \<lparr>NodeMustExist = None, NodeMustNotExist = None\<rparr>,
      data_Source = None, data_Destination = None\<rparr>"

text \<open>Go's \<^verbatim>\<open>append(s, x)\<close> read as a value: appending to the nil slice gives a slice.\<close>

definition append_slice :: "'a list option \<Rightarrow> 'a \<Rightarrow> 'a list option" where
  "append_slice s x = (case s of None \<Rightarrow> Some [x] | Some xs \<Rightarrow> Some (xs @ [x]))"











text \<open>
  The resource types a path visits from \<open>start\<close>, in order: an edge is left at the end
  that is not the current type.
\<close>

fun path_nodes :: "rtype \<Rightarrow> Edge list \<Rightarrow> rtype list" where
  "path_nodes start [] = [start]"
| "path_nodes start (e # es) =
     start # path_nodes (if Source e = start then Destination e else Source e) es"




section \<open>\<^verbatim>\<open>EdgeKB.ExpandEdges\<close> (pkg/knowledge\_base/edge\_kb.go)\<close>

text \<open>
  A dependency of the resource graph (\<^verbatim>\<open>graph.Edge[core.Resource]\<close>). Its
  \<^verbatim>\<open>Properties.Data\<close> has the type \<^verbatim>\<open>any\<close>: nil, an \<^verbatim>\<open>EdgeData\<close>, or a value of
  another type.
\<close>

datatype 'x edge_properties_data = NoData | IsEdgeData EdgeData | OtherData 'x


















section \<open>Edge constraints: \<^verbatim>\<open>handleEdgeConstainConstraint\<close>\<close>

text \<open>\<^verbatim>\<open>constraints.EdgeConstraint\<close>, with its operator, target edge and node.\<close>

datatype ConstraintOperator =
    MustExistConstraintOperator
  | MustNotExistConstraintOperator
  | MustContainConstraintOperator
  | MustNotContainConstraintOperator

record constraints_Edge =
  edge_Source :: ResourceId
  edge_Target :: ResourceId

record constraints_EdgeConstraint =
  Operator :: ConstraintOperator
  Target :: constraints_Edge
  Node :: ResourceId

text \<open>
  Modelled from the spec: the constant \<^verbatim>\<open>core.AbstractConstructProvider\<close> is not part of
  the source; the spec gives the reserved provider of a construct as \<^verbatim>\<open>abstract\<close>.
\<close>

definition AbstractConstructProvider :: string where
  "AbstractConstructProvider = ''abstract''"

subsection \<open>pkg/engine/engine.go\<close>


text \<open>The edge data of a dependency that has none: one list with the resource.\<close>

definition fresh_edge_data :: "ConstraintOperator \<Rightarrow> Resource \<Rightarrow> EdgeData" where
  "fresh_edge_data operator resource =
     (if operator = MustContainConstraintOperator
      then EdgeData_zero\<lparr>Constraint :=
             \<lparr>NodeMustExist = Some [resource], NodeMustNotExist = None\<rparr>\<rparr>
      else if operator = MustNotContainConstraintOperator
      then EdgeData_zero\<lparr>Constraint :=
             \<lparr>NodeMustExist = None, NodeMustNotExist = Some [resource]\<rparr>\<rparr>
      else EdgeData_zero)"

text \<open>The edge data of a dependency that has some: the resource is appended to a list.\<close>

definition extend_edge_data :: "ConstraintOperator \<Rightarrow> Resource \<Rightarrow> EdgeData \<Rightarrow> EdgeData" where
  "extend_edge_data operator resource data =
     (if operator = MustContainConstraintOperator
      then data\<lparr>Constraint := (Constraint data)
             \<lparr>NodeMustExist := append_slice (NodeMustExist (Constraint data)) resource\<rparr>\<rparr>
      else if operator = MustNotContainConstraintOperator
      then data\<lparr>Constraint := (Constraint data)
             \<lparr>NodeMustNotExist := append_slice (NodeMustNotExist (Constraint data)) resource\<rparr>\<rparr>
      else data)"



subsection \<open>The engine variant with an end state (unnamed/part\_005)\<close>

text \<open>
  What the function uses of this engine: the single provider's
  \<^verbatim>\<open>CreateResourceFromId\<close>, the mapping from constructs to resources, and the end state
  (\<^verbatim>\<open>*core.ResourceGraph\<close>, the type \<open>'g\<close>) with \<^verbatim>\<open>GetResource\<close>,
  \<^verbatim>\<open>GetDependency\<close> and \<^verbatim>\<open>AddDependencyWithData\<close>.
\<close>

record ('g, 'w, 'c, 'x) EndStateOps =
  CreateResourceFromId :: "ResourceId \<Rightarrow> 'w \<Rightarrow> 'c err + Resource"
  constructToResourceMapping :: "ResourceId \<rightharpoonup> Resource list"
  es_GetResource :: "'g \<Rightarrow> ResourceId \<Rightarrow> Resource option"
  es_GetDependency :: "'g \<Rightarrow> ResourceId \<Rightarrow> ResourceId \<Rightarrow> 'x edge_properties_data option"
  es_AddDependencyWithData :: "Resource \<Rightarrow> Resource \<Rightarrow> EdgeData \<Rightarrow> 'g \<Rightarrow> 'g"

text \<open>
  The body of the two nested loops for one pair of nodes: the end state after it, and the
  error when the function returns from inside the loops.
\<close>

definition add_edge_data ::
  "('g, 'w, 'c, 'x) EndStateOps \<Rightarrow> constraints_EdgeConstraint \<Rightarrow> Resource \<Rightarrow> Resource
    \<Rightarrow> Resource \<Rightarrow> 'g \<Rightarrow> 'g \<times> 'c err option" where
  "add_edge_data ops constraint resource src dst g =
     (let source = edge_Source (Target constraint);
          target = edge_Target (Target constraint)
      in case es_GetDependency ops g source target of
           None \<Rightarrow>
             (es_AddDependencyWithData ops src dst
                (fresh_edge_data (Operator constraint) resource) g, None)
         | Some (IsEdgeData data) \<Rightarrow>
             (es_AddDependencyWithData ops src dst
                (extend_edge_data (Operator constraint) resource data) g, None)
         | Some _ \<Rightarrow> (g, Some (UnableToCastEdgeData source target)))"

fun add_edge_data_dsts ::
  "('g, 'w, 'c, 'x) EndStateOps \<Rightarrow> constraints_EdgeConstraint \<Rightarrow> Resource \<Rightarrow> Resource
    \<Rightarrow> Resource list \<Rightarrow> 'g \<Rightarrow> 'g \<times> 'c err option" where
  "add_edge_data_dsts ops constraint resource src [] g = (g, None)"
| "add_edge_data_dsts ops constraint resource src (dst # dstNodes) g =
     (case add_edge_data ops constraint resource src dst g of
        (g', Some er) \<Rightarrow> (g', Some er)
      | (g', None) \<Rightarrow> add_edge_data_dsts ops constraint resource src dstNodes g')"

fun add_edge_data_srcs ::
  "('g, 'w, 'c, 'x) EndStateOps \<Rightarrow> constraints_EdgeConstraint \<Rightarrow> Resource \<Rightarrow> Resource list
    \<Rightarrow> Resource list \<Rightarrow> 'g \<Rightarrow> 'g \<times> 'c err option" where
  "add_edge_data_srcs ops constraint resource [] dstNodes g = (g, None)"
| "add_edge_data_srcs ops constraint resource (src # srcNodes) dstNodes g =
     (case add_edge_data_dsts ops constraint resource src dstNodes g of
        (g', Some er) \<Rightarrow> (g', Some er)
      | (g', None) \<Rightarrow> add_edge_data_srcs ops constraint resource srcNodes dstNodes g')"

text \<open>
  The nodes of the source of the target edge: the resources a construct is mapped to, or
  the resource of the end state.
\<close>

definition source_nodes ::
  "('g, 'w, 'c, 'x) EndStateOps \<Rightarrow> constraints_EdgeConstraint \<Rightarrow> 'g \<Rightarrow> 'c err + Resource list" where
  "source_nodes ops constraint g =
     (let source = edge_Source (Target constraint)
      in if Provider source = AbstractConstructProvider
         then (case constructToResourceMapping ops source of
                 None \<Rightarrow> Inl (NoResourcesForConstruct source)
               | Some srcResources \<Rightarrow> Inr ([] @ srcResources))
         else (case es_GetResource ops g source of
                 None \<Rightarrow> Inl (UnableToFindResource source)
               | Some src \<Rightarrow> Inr ([] @ [src])))"

text \<open>
  The nodes of the destination: the resources a construct is mapped to; for a resource of
  the end state, \<^verbatim>\<open>dst\<close> is looked up and \<^verbatim>\<open>dstNodes\<close> stays as it is.
\<close>

definition destination_nodes ::
  "('g, 'w, 'c, 'x) EndStateOps \<Rightarrow> constraints_EdgeConstraint \<Rightarrow> 'g \<Rightarrow> 'c err + Resource list" where
  "destination_nodes ops constraint g =
     (let target = edge_Target (Target constraint)
      in if Provider target = AbstractConstructProvider
         then (case constructToResourceMapping ops target of
                 None \<Rightarrow> Inl (NoResourcesForConstruct target)
               | Some dstResources \<Rightarrow> Inr ([] @ dstResources))
         else (case es_GetResource ops g target of
                 None \<Rightarrow> Inl (UnableToFindResource target)
               | Some dst \<Rightarrow> Inr []))"

text \<open>
  \<^verbatim>\<open>handleEdgeConstainConstraint\<close> of this variant, on the end state \<open>g\<close> and the
  working state \<open>w\<close>: the end state and the error it returns.
\<close>

definition handleEdgeConstainConstraint_endstate ::
  "('g, 'w, 'c, 'x) EndStateOps \<Rightarrow> constraints_EdgeConstraint \<Rightarrow> 'w \<Rightarrow> 'g \<Rightarrow> 'g \<times> 'c err option" where
  "handleEdgeConstainConstraint_endstate ops constraint w g =
     (case source_nodes ops constraint g of
        Inl er \<Rightarrow> (g, Some er)
      | Inr srcNodes \<Rightarrow>
          (case destination_nodes ops constraint g of
             Inl er \<Rightarrow> (g, Some er)
           | Inr dstNodes \<Rightarrow>
               (case CreateResourceFromId ops (Node constraint) w of
                  Inl er \<Rightarrow> (g, Some er)
                | Inr resource \<Rightarrow>
                    add_edge_data_srcs ops constraint resource srcNodes dstNodes g)))"

text \<open>
  Concrete data for evaluating the two functions. The working state and the end state are
  association lists from the two ids of a dependency to its data; the end state also has a
  list of resources. The provider \<^verbatim>\<open>aws\<close> creates the resource of an id.
\<close>

definition rid :: "string \<Rightarrow> string \<Rightarrow> string \<Rightarrow> ResourceId" where
  "rid p t n = \<lparr>Provider = p, Type = t, Namespace = [], Name = n\<rparr>"

definition resource_from_id :: "ResourceId \<Rightarrow> Resource" where
  "resource_from_id i = \<lparr>TypeOf = Type i, Id = i\<rparr>"


definition must_contain_proxy :: constraints_EdgeConstraint where
  "must_contain_proxy =
     \<lparr>Operator = MustContainConstraintOperator,
      Target = \<lparr>edge_Source = rid ''aws'' ''LambdaFunction'' ''api'',
                edge_Target = rid ''aws'' ''RdsInstance'' ''db''\<rparr>,
      Node = rid ''aws'' ''RdsProxy'' []\<rparr>"

record 'x example_end_state =
  es_resources :: "Resource list"
  es_dependencies :: "((ResourceId \<times> ResourceId) \<times> 'x edge_properties_data) list"

definition example_endstate_ops ::
  "(unit example_end_state, unit, string, unit) EndStateOps" where
  "example_endstate_ops =
     \<lparr>CreateResourceFromId = (\<lambda>i w. Inr (resource_from_id i)),
      constructToResourceMapping = Map.empty,
      es_GetResource = (\<lambda>g i. find (\<lambda>r. Id r = i) (es_resources g)),
      es_GetDependency = (\<lambda>g s t. map_of (es_dependencies g) (s, t)),
      es_AddDependencyWithData = (\<lambda>src dst d g.
         g\<lparr>es_dependencies := ((Id src, Id dst), IsEdgeData d) # es_dependencies g\<rparr>)\<rparr>"

definition example_end_state :: "unit example_end_state" where
  "example_end_state =
     \<lparr>es_resources = [resource_from_id (rid ''aws'' ''LambdaFunction'' ''api''),
                      resource_from_id (rid ''aws'' ''RdsInstance'' ''db'')],
      es_dependencies = []\<rparr>"

definition must_contain_missing_source :: constraints_EdgeConstraint where
  "must_contain_missing_source =
     \<lparr>Operator = MustContainConstraintOperator,
      Target = \<lparr>edge_Source = rid ''aws'' ''LambdaFunction'' ''other'',
                edge_Target = rid ''aws'' ''RdsInstance'' ''db''\<rparr>,
      Node = rid ''aws'' ''RdsProxy'' []\<rparr>"

section \<open>Path selection: \<^verbatim>\<open>expandEdge\<close> (unnamed/part\_004)\<close>

text \<open>
  Modelled from the spec: \<^verbatim>\<open>construct.ResourceIdLess\<close> is not part of the source; the
  spec gives a \<^verbatim>\<open>ResourceId\<close> as the tuple (provider, type, namespace, name), totally
  ordered. The order is the lexicographic one on the tuple, each component compared as Go
  compares strings (byte by byte).
\<close>

definition ResourceIdLess :: "ResourceId \<Rightarrow> ResourceId \<Rightarrow> bool" where
  "ResourceIdLess a b =
     (if Provider a \<noteq> Provider b then Provider a < Provider b
      else if Type a \<noteq> Type b then Type a < Type b
      else if Namespace a \<noteq> Namespace b then Namespace a < Namespace b
      else Name a < Name b)"

text \<open>
  The loop \<^verbatim>\<open>for k := 0; k < il; k++\<close> of the comparison function given to
  \<^verbatim>\<open>sort.Slice\<close>: the first position where the two paths differ decides. The function
  is only called on paths of the same length; on a shorter second path the Go loop would
  read out of range, and the model gives \<open>False\<close> there.
\<close>

fun first_difference_less ::
  "(ResourceId \<Rightarrow> ResourceId \<Rightarrow> bool) \<Rightarrow> ResourceId list \<Rightarrow> ResourceId list \<Rightarrow> bool" where
  "first_difference_less lt [] pj = False"
| "first_difference_less lt (a # pi) [] = False"
| "first_difference_less lt (a # pi) (b # pj) =
     (if a \<noteq> b then lt a b else first_difference_less lt pi pj)"

definition path_less ::
  "(ResourceId \<Rightarrow> ResourceId \<Rightarrow> bool) \<Rightarrow> ResourceId list \<Rightarrow> ResourceId list \<Rightarrow> bool" where
  "path_less lt pi pj =
     (if length pi \<noteq> length pj then length pi < length pj
      else first_difference_less lt pi pj)"

text \<open>
  \<^verbatim>\<open>sort.Slice\<close> is Go's standard library: it permutes the slice so that it is sorted by
  the comparison function. It is modelled by insertion sort; the comparison function of
  \<^verbatim>\<open>expandEdge\<close> is a strict total order on paths, so that there is only one sorted
  permutation (lemma \<open>sorted_paths_unique\<close>) and the sorting algorithm does not matter.
\<close>

fun insert_by :: "('a \<Rightarrow> 'a \<Rightarrow> bool) \<Rightarrow> 'a \<Rightarrow> 'a list \<Rightarrow> 'a list" where
  "insert_by lt x [] = [x]"
| "insert_by lt x (y # ys) = (if lt y x then y # insert_by lt x ys else x # y # ys)"

fun sort_Slice :: "('a \<Rightarrow> 'a \<Rightarrow> bool) \<Rightarrow> 'a list \<Rightarrow> 'a list" where
  "sort_Slice lt [] = []"
| "sort_Slice lt (x # xs) = insert_by lt x (sort_Slice lt xs)"







section \<open>Path selection: \<^verbatim>\<open>expandPath\<close> (unnamed/part\_004)\<close>

text \<open>
  The collaborators of \<^verbatim>\<open>expandPath\<close>, for a fixed solution context, input and result
  graph. \<open>'tg\<close> is the temporary graph \<^verbatim>\<open>input.TempGraph\<close>, which the function changes;
  \<open>'res\<close> is \<^verbatim>\<open>*construct.Resource\<close>. \<^verbatim>\<open>checkCandidatesValidity\<close> is given the
  resource and the path, \<^verbatim>\<open>checkNamespaceValidity\<close> the resource,
  \<^verbatim>\<open>determineCandidateWeight\<close> the id of the candidate; \<open>Matches\<close> is
  \<^verbatim>\<open>ResourceId.Matches\<close>. \<open>addEdge\<close> is the closure of that name, which works on the
  temporary graph and on the errors of \<^verbatim>\<open>expandPath\<close>; a candidate is an id with
  \<^verbatim>\<open>divideWeightBy\<close>. \<open>DataflowEdges_error\<close> is the error of
  \<^verbatim>\<open>ctx.DataflowGraph().Edges()\<close>.
\<close>

record ('tg, 'res, 'c) ExpandPathOps =
  tg_Vertex :: "'tg \<Rightarrow> ResourceId \<Rightarrow> 'c err + 'res"
  tg_AddVertex :: "'res \<Rightarrow> 'tg \<Rightarrow> 'tg \<times> 'c err option"
  checkCandidatesValidity :: "'res \<Rightarrow> ResourceId list \<Rightarrow> 'c err + bool"
  checkNamespaceValidity :: "'res \<Rightarrow> 'c err + bool"
  determineCandidateWeight :: "ResourceId \<Rightarrow> 'c err + int"
  Matches :: "ResourceId \<Rightarrow> ResourceId \<Rightarrow> bool"
  addEdge :: "ResourceId \<times> int \<Rightarrow> ResourceId \<times> int \<Rightarrow> 'tg \<times> 'c err list \<Rightarrow> 'tg \<times> 'c err list"
  DataflowEdges_error :: "'c err option"

text \<open>
  A map \<^verbatim>\<open>map[construct.ResourceId]int\<close> of candidates and their weights is an
  association list with one entry for a key; the order of the list stands for the order in
  which Go ranges over the map, which is unspecified. The weights are Go's \<^verbatim>\<open>int\<close>;
  the sums below stay far from its bounds and are taken in the integers.
\<close>

type_synonym candidate_map = "(ResourceId \<times> int) list"

text \<open>
  One iteration of the loop that creates the candidates of the nodes of the path: the map
  of the node and the errors joined. (\<^verbatim>\<open>newResources\<close> is written and never read.)
\<close>

definition initial_candidate ::
  "('tg, 'res, 'c) ExpandPathOps \<Rightarrow> 'tg \<Rightarrow> ResourceId list \<Rightarrow> ResourceId
    \<Rightarrow> candidate_map \<times> 'c err list" where
  "initial_candidate ops tg path node =
     (case tg_Vertex ops tg node of
        Inl er \<Rightarrow> (AList.update node 0 [], [er])
      | Inr resource \<Rightarrow>
          (case checkCandidatesValidity ops resource path of
             Inl er \<Rightarrow> (AList.update node 0 [], [er])
           | Inr valid \<Rightarrow>
               (if \<not> valid then AList.update node (- 1000) (AList.update node 0 [])
                else AList.update node 0 [], [])))"

definition initial_candidates ::
  "('tg, 'res, 'c) ExpandPathOps \<Rightarrow> 'tg \<Rightarrow> ResourceId list \<Rightarrow> ResourceId list
    \<Rightarrow> candidate_map list \<times> 'c err list" where
  "initial_candidates ops tg path nonBoundaryResources =
     (map (\<lambda>node. fst (initial_candidate ops tg path node)) nonBoundaryResources,
      concat (map (\<lambda>node. snd (initial_candidate ops tg path node)) nonBoundaryResources))"

text \<open>\<^verbatim>\<open>matchesNonBoundary\<close>: the first index whose node matches; \<open>None\<close> is \<^verbatim>\<open>-1\<close>.\<close>

fun matchesNonBoundary_from ::
  "('tg, 'res, 'c) ExpandPathOps \<Rightarrow> ResourceId \<Rightarrow> ResourceId list \<Rightarrow> nat \<Rightarrow> nat option" where
  "matchesNonBoundary_from ops i [] n = None"
| "matchesNonBoundary_from ops i (node # nodes) n =
     (if Matches ops \<lparr>Provider = Provider node, Type = Type node,
                        Namespace = Namespace node, Name = []\<rparr> i
      then Some n else matchesNonBoundary_from ops i nodes (Suc n))"

definition matchesNonBoundary ::
  "('tg, 'res, 'c) ExpandPathOps \<Rightarrow> ResourceId \<Rightarrow> ResourceId list \<Rightarrow> nat option" where
  "matchesNonBoundary ops i nonBoundaryResources =
     matchesNonBoundary_from ops i nonBoundaryResources 0"

text \<open>
  The closure \<^verbatim>\<open>addCandidates\<close>, on the candidates and the temporary graph; its result
  is the error it returns (the list of joined errors, empty for nil). An index returned by
  \<^verbatim>\<open>matchesNonBoundary\<close> is an index of \<^verbatim>\<open>candidates\<close>, which is as long as
  \<^verbatim>\<open>nonBoundaryResources\<close>.
\<close>

definition addCandidates ::
  "('tg, 'res, 'c) ExpandPathOps \<Rightarrow> ResourceId list \<Rightarrow> ResourceId list \<Rightarrow> ResourceId \<Rightarrow> 'res
    \<Rightarrow> 'c err list \<Rightarrow> candidate_map list \<times> 'tg \<Rightarrow> (candidate_map list \<times> 'tg) \<times> 'c err list" where
  "addCandidates ops path nonBoundaryResources i resource nerr st =
     (case st of (candidates, tg) \<Rightarrow>
      (case matchesNonBoundary ops i nonBoundaryResources of
         None \<Rightarrow> ((candidates, tg), [])
       | Some matchIdx \<Rightarrow>
           (case checkNamespaceValidity ops resource of
              Inl er \<Rightarrow> ((candidates, tg), nerr @ [er])
            | Inr False \<Rightarrow> ((candidates, tg), nerr)
            | Inr True \<Rightarrow>
                (case tg_AddVertex ops resource tg of
                   (tg', er) \<Rightarrow>
                     if er \<noteq> None \<and> er \<noteq> Some ErrVertexAlreadyExists
                     then ((candidates, tg'), merr_Append nerr er)
                     else (let candidates1 =
                                 (if map_of (candidates ! matchIdx) i = None
                                  then candidates[matchIdx :=
                                         AList.update i 0 (candidates ! matchIdx)]
                                  else candidates)
                           in case determineCandidateWeight ops i of
                                Inl er \<Rightarrow> ((candidates1, tg'), nerr @ [er])
                              | Inr weight \<Rightarrow>
                                  (case checkCandidatesValidity ops resource path of
                                     Inl er \<Rightarrow> ((candidates1, tg'), nerr @ [er])
                                   | Inr valid \<Rightarrow>
                                       (let weight' = (if \<not> valid then - 1000 else weight)
                                        in ((candidates1[matchIdx :=
                                               AList.update i
                                                 (the (map_of (candidates1 ! matchIdx) i) + weight')
                                                 (candidates1 ! matchIdx)], tg'),
                                            nerr))))))))"

text \<open>
  Modelled from the spec: \<^verbatim>\<open>construct.WalkGraph\<close> is not part of the source, and the
  graph substrate of the spec has no more than the notion of such a walk. It is taken to
  call the function once on every vertex of the graph, in an order given by the list of
  the vertices, handing each call the error the call before it returned, and to return the
  error of the last call.
\<close>

fun WalkGraph ::
  "(ResourceId \<Rightarrow> 'res \<Rightarrow> 'c err list \<Rightarrow> 'st \<Rightarrow> 'st \<times> 'c err list)
    \<Rightarrow> (ResourceId \<times> 'res) list \<Rightarrow> 'c err list \<Rightarrow> 'st \<Rightarrow> 'st \<times> 'c err list" where
  "WalkGraph fn [] nerr st = (st, nerr)"
| "WalkGraph fn ((i, resource) # vertices) nerr st =
     (case fn i resource nerr st of (st', er) \<Rightarrow> WalkGraph fn vertices er st')"

text \<open>
  The candidates and the temporary graph after the two walks, over the vertices of the
  result graph and over those of \<^verbatim>\<open>ctx.RawView()\<close>, with the errors joined so far.
\<close>

definition expandPath_candidates ::
  "('tg, 'res, 'c) ExpandPathOps \<Rightarrow> ResourceId list \<Rightarrow> (ResourceId \<times> 'res) list
    \<Rightarrow> (ResourceId \<times> 'res) list \<Rightarrow> 'tg \<Rightarrow> (candidate_map list \<times> 'tg) \<times> 'c err list" where
  "expandPath_candidates ops path resultGraph rawView tg =
     (let nonBoundaryResources = take (length path - 2) (drop 1 path);
          (candidates, errs) = initial_candidates ops tg path nonBoundaryResources
      in if errs \<noteq> [] then ((candidates, tg), errs)
         else (case WalkGraph (addCandidates ops path nonBoundaryResources) resultGraph []
                      (candidates, tg) of
                 (st1, er1) \<Rightarrow>
                   (let errs1 = (if er1 \<noteq> []
                                 then errs @ [WalkGraphError
                                        ''error during result graph walk graph'' er1]
                                 else errs)
                    in case WalkGraph (addCandidates ops path nonBoundaryResources) rawView []
                              st1 of
                         (st2, er2) \<Rightarrow>
                           (st2, if er2 \<noteq> []
                                 then errs1 @ [WalkGraphError
                                        ''error during raw view walk graph'' er2]
                                 else errs1))))"

text \<open>
  The calls of \<^verbatim>\<open>addEdge\<close>, in order: for every candidate of the first node an edge
  from the source of the dependency, for every candidate of a later node an edge from every
  candidate of the node before it, and for every candidate of the last node an edge to the
  target of the dependency.
\<close>

fun candidate_edges ::
  "candidate_map \<Rightarrow> candidate_map list \<Rightarrow> ((ResourceId \<times> int) \<times> (ResourceId \<times> int)) list" where
  "candidate_edges sources [] = []"
| "candidate_edges sources (resCandidates # rest) =
     concat (map (\<lambda>c. map (\<lambda>source. (source, c)) sources) resCandidates)
     @ candidate_edges resCandidates rest"

definition edge_calls ::
  "ResourceId \<Rightarrow> ResourceId \<Rightarrow> candidate_map list
    \<Rightarrow> ((ResourceId \<times> int) \<times> (ResourceId \<times> int)) list" where
  "edge_calls src target candidates =
     candidate_edges [(src, 0)] candidates
     @ (if length candidates > 0 then map (\<lambda>c. (c, (target, 0))) (last candidates) else [])"

text \<open>
  \<^verbatim>\<open>expandPath\<close>: the temporary graph after the call and the error returned (the empty
  list is nil). A path of fewer than two nodes makes \<^verbatim>\<open>path[1 : len(path)-1]\<close> panic.
\<close>

definition expandPath ::
  "('tg, 'res, 'c) ExpandPathOps \<Rightarrow> ResourceId \<Rightarrow> ResourceId \<Rightarrow> ResourceId list
    \<Rightarrow> (ResourceId \<times> 'res) list \<Rightarrow> (ResourceId \<times> 'res) list \<Rightarrow> 'tg \<Rightarrow> 'tg \<times> 'c err list" where
  "expandPath ops src target path resultGraph rawView tg =
     (if length path = 2 then (tg, [])
      else if length path < 2 then (tg, [Panic ''slice bounds out of range''])
      else (case expandPath_candidates ops path resultGraph rawView tg of
              ((candidates, tg'), errs) \<Rightarrow>
                (let errs' = merr_Append errs (DataflowEdges_error ops)
                 in if errs' \<noteq> [] then (tg', errs')
                    else fold (\<lambda>(source, c). addEdge ops source c)
                           (edge_calls src target candidates) (tg', errs'))))"

text \<open>
  Concrete data for evaluating the model: a path with one phantom node of type
  \<^verbatim>\<open>rds_proxy\<close>; an existing proxy that is a vertex of the result graph and of the raw
  view; every resource is in the namespace, no resource passes the validity checks, and
  the weight of a candidate would be 7.
\<close>

definition example_path_ops :: "(ResourceId list, ResourceId, string) ExpandPathOps" where
  "example_path_ops =
     \<lparr>tg_Vertex = (\<lambda>tg i. Inr i),
      tg_AddVertex = (\<lambda>r tg. if r \<in> set tg then (tg, Some ErrVertexAlreadyExists)
                               else (tg @ [r], None)),
      checkCandidatesValidity = (\<lambda>r path. Inr False),
      checkNamespaceValidity = (\<lambda>r. Inr True),
      determineCandidateWeight = (\<lambda>i. Inr 7),
      Matches = (\<lambda>sel i. (Provider sel = [] \<or> Provider sel = Provider i)
                        \<and> (Type sel = [] \<or> Type sel = Type i)
                        \<and> (Namespace sel = [] \<or> Namespace sel = Namespace i)
                        \<and> (Name sel = [] \<or> Name sel = Name i)),
      addEdge = (\<lambda>source c st. st),
      DataflowEdges_error = None\<rparr>"

definition example_phantom_path :: "ResourceId list" where
  "example_phantom_path =
     [rid ''aws'' ''lambda_function'' ''api'', rid ''aws'' ''rds_proxy'' ''PHANTOM_a'',
      rid ''aws'' ''rds_instance'' ''db'']"

section \<open>Properties of \<^verbatim>\<open>SolveGraph\<close>\<close>

declare SolveGraph_loop.simps [simp del]

lemma loop_iterations_le:
  "i \<le> NUM_LOOPS \<Longrightarrow> snd (snd (SolveGraph_loop e c i st)) \<le> NUM_LOOPS"
proof (induction e c i st rule: SolveGraph_loop.induct)
  case (1 e c i st)
  show ?case
  proof (cases "i < NUM_LOOPS")
    case True
    then show ?thesis
      using 1 by (subst SolveGraph_loop.simps) (auto split: outcome.splits)
  next
    case False
    then show ?thesis using 1 by (subst SolveGraph_loop.simps) simp
  qed
qed

lemma configure_edges_env:
  "configure_edges (e\<lparr>Getenv := env\<rparr>) i ds s = configure_edges e i ds s"
  by (induction e i ds s rule: configure_edges.induct) (auto split: prod.splits option.splits)

lemma body_env:
  "SolveGraph_body (e\<lparr>Getenv := env\<rparr>) c i st = SolveGraph_body e c i st"
proof -
  have f: "expandEdges (e\<lparr>Getenv := env\<rparr>) = expandEdges e"
    "ListDependencies (e\<lparr>Getenv := env\<rparr>) = ListDependencies e"
    "MakeResourcesOperational (e\<lparr>Getenv := env\<rparr>) = MakeResourcesOperational e"
    "ValidateConstraints (e\<lparr>Getenv := env\<rparr>) = ValidateConstraints e"
    "ListResources (e\<lparr>Getenv := env\<rparr>) = ListResources e"
    by simp_all
  show ?thesis
    unfolding SolveGraph_body_def expand_and_configure_def f configure_edges_env ..
qed

lemma loop_env_irrelevant:
  "SolveGraph_loop (e\<lparr>Getenv := env\<rparr>) c i st = SolveGraph_loop e c i st"
proof (induction e c i st rule: SolveGraph_loop.induct)
  case (1 e c i st)
  show ?case
    using 1 by (subst (1 2) SolveGraph_loop.simps) (auto simp: body_env split: outcome.splits)
qed

lemma body_Return_last:
  "SolveGraph_body e c i st = Return s' er \<Longrightarrow>
     i = NUM_LOOPS - 1 \<and>
     (er = SolvingErrors (errorMap s' i) \<and> errorMap s' i \<noteq> [] \<or>
      (er = UnsatisfiedConstraints (ValidateConstraints e (constructsMapping c) (graph s'))
        \<and> ValidateConstraints e (constructsMapping c) (graph s') \<noteq> []))"
  by (auto simp: SolveGraph_body_def Let_def split: prod.splits option.splits if_splits)

lemma state_at_loop:
  "SolveGraph_state_at e c i = Some s \<Longrightarrow> SolveGraph_run e c = SolveGraph_loop e c i s"
proof (induction i arbitrary: s)
  case 0
  then show ?case by (simp add: SolveGraph_run_def)
next
  case (Suc i)
  then show ?case
    by (auto split: option.splits if_splits outcome.splits simp: SolveGraph_loop.simps[of e c i])
qed

lemma record_error_errorMap:
  "errorMap (record_error i er st) j = (if j = i then errorMap st i @ [er] else errorMap st j)"
  by (simp add: record_error_def)

lemma configure_edges_errorMap_other:
  "j \<noteq> i \<Longrightarrow> errorMap (configure_edges e i ds st) j = errorMap st j"
  by (induction e i ds st rule: configure_edges.induct)
     (auto split: prod.splits option.splits simp: record_error_errorMap)

lemma body_errorMap_other:
  "j \<noteq> i \<Longrightarrow> errorMap (outcome_state (SolveGraph_body e c i st)) j = errorMap st j"
  by (auto simp: SolveGraph_body_def Let_def expand_and_configure_def record_error_errorMap
      configure_edges_errorMap_other split: prod.splits option.splits)

lemma state_at_fresh:
  "SolveGraph_state_at e c i = Some s \<Longrightarrow> i \<le> j \<Longrightarrow> errorMap s j = []"
proof (induction i arbitrary: s j)
  case 0
  then show ?case by (auto simp: SolveGraph_init_def)
next
  case (Suc i)
  from Suc.prems obtain s0 where s0: "SolveGraph_state_at e c i = Some s0"
    and b: "SolveGraph_body e c i s0 = Continue s"
    by (auto split: option.splits if_splits outcome.splits)
  have "errorMap s j = errorMap s0 j"
    using body_errorMap_other[of j i e c s0] Suc.prems(2) b by simp
  then show ?case using Suc.IH[OF s0, of j] Suc.prems(2) by simp
qed

lemma loop_error_from_last:
  "SolveGraph_state_at e c i = Some st \<Longrightarrow> SolveGraph_loop e c i st = (s', Some er, n) \<Longrightarrow>
     n = NUM_LOOPS \<and> (\<exists>s. SolveGraph_state_at e c (NUM_LOOPS - 1) = Some s
        \<and> SolveGraph_body e c (NUM_LOOPS - 1) s = Return s' er)"
proof (induction e c i st rule: SolveGraph_loop.induct)
  case (1 e c i st)
  show ?case
  proof (cases "i < NUM_LOOPS")
    case False
    then show ?thesis using 1(3) by (simp add: SolveGraph_loop.simps[of e c i])
  next
    case True
    show ?thesis
    proof (cases "SolveGraph_body e c i st")
      case (Continue st')
      then have l: "SolveGraph_loop e c (Suc i) st' = (s', Some er, n)"
        using 1(3) True by (simp add: SolveGraph_loop.simps[of e c i])
      have s: "SolveGraph_state_at e c (Suc i) = Some st'"
        using 1(2) True Continue by simp
      show ?thesis by (rule 1(1)[OF True Continue s l])
    next
      case (Break st')
      then show ?thesis using 1(3) True by (simp add: SolveGraph_loop.simps[of e c i])
    next
      case (Return st' er')
      then have eq: "st' = s'" "er' = er" "n = Suc i"
        using 1(3) True by (simp_all add: SolveGraph_loop.simps[of e c i])
      from body_Return_last[OF Return] have i: "i = NUM_LOOPS - 1" by simp
      have "n = NUM_LOOPS" using eq(3) i True by simp
      then show ?thesis using Return eq i 1(2) by auto
    qed
  qed
qed

lemma run_iterations_le: "SolveGraph_iterations e context \<le> 5"
  using loop_iterations_le[of 0 e "context" "SolveGraph_init context"]
  by (simp add: SolveGraph_iterations_def SolveGraph_run_def NUM_LOOPS_def split_beta)

lemma clean_iteration:
  assumes s: "SolveGraph_state_at e context i = Some s" and i: "i < NUM_LOOPS"
    and clean: "errorMap (outcome_state (SolveGraph_body e context i s)) i = []"
    and sat: "\<not> (i = NUM_LOOPS - 1 \<and>
       ValidateConstraints e (constructsMapping context)
         (graph (outcome_state (SolveGraph_body e context i s))) \<noteq> [])"
  shows "SolveGraph_run e context = (outcome_state (SolveGraph_body e context i s), None, Suc i)"
proof -
  obtain s' where b: "SolveGraph_body e context i s = Break s'"
    using clean sat
    by (auto simp: SolveGraph_body_def Let_def record_error_errorMap
        split: prod.splits option.splits if_splits)
  show ?thesis
    unfolding state_at_loop[OF s] using i b by (simp add: SolveGraph_loop.simps[of e "context" i])
qed

lemma last_iteration_errors:
  assumes s: "SolveGraph_state_at e context (NUM_LOOPS - 1) = Some s"
    and mro: "snd (snd (MakeResourcesOperational e (graph (expand_and_configure e (NUM_LOOPS - 1) s)))) = None"
    and errs: "errorMap (outcome_state (SolveGraph_body e context (NUM_LOOPS - 1) s)) (NUM_LOOPS - 1) \<noteq> []"
  shows "\<exists>er. SolveGraph_run e context
            = (outcome_state (SolveGraph_body e context (NUM_LOOPS - 1) s), Some er, NUM_LOOPS)"
proof -
  obtain s' er where b: "SolveGraph_body e context (NUM_LOOPS - 1) s = Return s' er"
    using mro errs
    by (auto simp: SolveGraph_body_def Let_def split: prod.splits option.splits if_splits)
  show ?thesis
    unfolding state_at_loop[OF s] using b
    by (simp add: SolveGraph_loop.simps[of e "context" 4] NUM_LOOPS_def)
qed

lemma last_iteration_unsatisfied:
  assumes s: "SolveGraph_state_at e context (NUM_LOOPS - 1) = Some s"
    and mro: "snd (snd (MakeResourcesOperational e (graph (expand_and_configure e (NUM_LOOPS - 1) s)))) = None"
    and unsat: "ValidateConstraints e (constructsMapping context)
         (fst (MakeResourcesOperational e (graph (expand_and_configure e (NUM_LOOPS - 1) s)))) \<noteq> []"
  shows "SolveGraph_run e context
           = ((expand_and_configure e (NUM_LOOPS - 1) s)
                \<lparr>graph := fst (MakeResourcesOperational e
                                 (graph (expand_and_configure e (NUM_LOOPS - 1) s)))\<rparr>,
              Some (UnsatisfiedConstraints (ValidateConstraints e (constructsMapping context)
                 (fst (MakeResourcesOperational e
                         (graph (expand_and_configure e (NUM_LOOPS - 1) s)))))),
              NUM_LOOPS)"
proof -
  have b: "SolveGraph_body e context (NUM_LOOPS - 1) s
      = Return ((expand_and_configure e (NUM_LOOPS - 1) s)
                \<lparr>graph := fst (MakeResourcesOperational e
                                 (graph (expand_and_configure e (NUM_LOOPS - 1) s)))\<rparr>)
          (UnsatisfiedConstraints (ValidateConstraints e (constructsMapping context)
                 (fst (MakeResourcesOperational e
                         (graph (expand_and_configure e (NUM_LOOPS - 1) s))))))"
    using mro unsat
    by (auto simp: SolveGraph_body_def Let_def split: prod.splits option.splits)
  show ?thesis
    unfolding state_at_loop[OF s] using b
    by (simp add: SolveGraph_loop.simps[of e "context" 4] NUM_LOOPS_def)
qed

lemma body_graph:
  "snd (snd (MakeResourcesOperational e (graph (expand_and_configure e i s)))) = None \<Longrightarrow>
     graph (outcome_state (SolveGraph_body e c i s))
       = fst (MakeResourcesOperational e (graph (expand_and_configure e i s)))"
  by (auto simp: SolveGraph_body_def Let_def split: prod.splits option.splits)

lemma last_iteration_solving_errors:
  assumes s: "SolveGraph_state_at e context (NUM_LOOPS - 1) = Some s"
    and mro: "snd (snd (MakeResourcesOperational e (graph (expand_and_configure e (NUM_LOOPS - 1) s)))) = None"
    and sat: "ValidateConstraints e (constructsMapping context)
         (fst (MakeResourcesOperational e (graph (expand_and_configure e (NUM_LOOPS - 1) s)))) = []"
    and errs: "errorMap (outcome_state (SolveGraph_body e context (NUM_LOOPS - 1) s)) (NUM_LOOPS - 1) \<noteq> []"
  shows "SolveGraph_run e context
           = (outcome_state (SolveGraph_body e context (NUM_LOOPS - 1) s),
              Some (SolvingErrors (errorMap (outcome_state
                      (SolveGraph_body e context (NUM_LOOPS - 1) s)) (NUM_LOOPS - 1))),
              NUM_LOOPS)"
proof -
  obtain s' er where b: "SolveGraph_body e context (NUM_LOOPS - 1) s = Return s' er"
    using mro errs
    by (auto simp: SolveGraph_body_def Let_def split: prod.splits option.splits if_splits)
  have o: "outcome_state (SolveGraph_body e context (NUM_LOOPS - 1) s) = s'" unfolding b by simp
  have "graph s' = fst (MakeResourcesOperational e (graph (expand_and_configure e (NUM_LOOPS - 1) s)))"
    using body_graph[OF mro, of "context"] o by simp
  then have "ValidateConstraints e (constructsMapping context) (graph s') = []"
    using sat by simp
  then have er: "er = SolvingErrors (errorMap s' (NUM_LOOPS - 1))"
    using body_Return_last[OF b] by auto
  have "SolveGraph_run e context = (s', Some er, NUM_LOOPS)"
    unfolding state_at_loop[OF s] using b
    by (simp add: SolveGraph_loop.simps[of e "context" 4] NUM_LOOPS_def)
  then show ?thesis unfolding o er .
qed

text \<open>
  Claim C2, as the code has it. \<^verbatim>\<open>SolveGraph\<close> enters its loop body at most 5 times. An
  iteration that records no error ends the loop with success, unless it is the fifth and
  \<^verbatim>\<open>ValidateConstraints\<close> reports unsatisfied constraints. When
  \<^verbatim>\<open>MakeResourcesOperational\<close> succeeds in the fifth iteration and errors were recorded
  in that iteration, the call returns an error. Every error the call returns comes from the
  fifth iteration: it is either built from \<^verbatim>\<open>errorMap[4]\<close>, which was empty when the
  fifth iteration began (so the errors of earlier iterations are not part of it), or it
  is the \<^verbatim>\<open>unsatisfied constraints\<close> error built from the constraints. When
  \<^verbatim>\<open>MakeResourcesOperational\<close> succeeds in the fifth iteration and
  \<^verbatim>\<open>ValidateConstraints\<close> reports unsatisfied constraints, the call returns the
  \<^verbatim>\<open>unsatisfied constraints\<close> error built from them, whether errors were recorded or
  not; when it reports none and errors were recorded in the fifth iteration, the call
  returns the error built from \<^verbatim>\<open>errorMap[4]\<close>.
\<close>

theorem SolveGraph_bounded_last_errors:
  "SolveGraph_iterations e context \<le> 5
   \<and> (\<forall>i s. SolveGraph_state_at e context i = Some s \<and> i < 5
            \<and> errorMap (outcome_state (SolveGraph_body e context i s)) i = []
            \<and> \<not> (i = 4 \<and> ValidateConstraints e (constructsMapping context)
                            (graph (outcome_state (SolveGraph_body e context i s))) \<noteq> [])
        \<longrightarrow> SolveGraph e context = (graph (outcome_state (SolveGraph_body e context i s)), None)
            \<and> SolveGraph_iterations e context = Suc i)
   \<and> (\<forall>s. SolveGraph_state_at e context 4 = Some s
            \<and> snd (snd (MakeResourcesOperational e (graph (expand_and_configure e 4 s)))) = None
            \<and> errorMap (outcome_state (SolveGraph_body e context 4 s)) 4 \<noteq> []
        \<longrightarrow> (\<exists>er. SolveGraph e context
                    = (graph (outcome_state (SolveGraph_body e context 4 s)), Some er)))
   \<and> (\<forall>g er. SolveGraph e context = (g, Some er)
        \<longrightarrow> SolveGraph_iterations e context = 5
            \<and> (\<exists>s s'. SolveGraph_state_at e context 4 = Some s \<and> errorMap s 4 = []
                  \<and> SolveGraph_body e context 4 s = Return s' er \<and> g = graph s'
                  \<and> (er = SolvingErrors (errorMap s' 4) \<and> errorMap s' 4 \<noteq> []
                      \<or> er = UnsatisfiedConstraints
                               (ValidateConstraints e (constructsMapping context) g)
                        \<and> ValidateConstraints e (constructsMapping context) g \<noteq> [])))
   \<and> (\<forall>s. SolveGraph_state_at e context 4 = Some s
            \<and> snd (snd (MakeResourcesOperational e (graph (expand_and_configure e 4 s)))) = None
            \<and> ValidateConstraints e (constructsMapping context)
                  (fst (MakeResourcesOperational e (graph (expand_and_configure e 4 s)))) \<noteq> []
        \<longrightarrow> SolveGraph e context
              = (fst (MakeResourcesOperational e (graph (expand_and_configure e 4 s))),
                 Some (UnsatisfiedConstraints (ValidateConstraints e (constructsMapping context)
                   (fst (MakeResourcesOperational e (graph (expand_and_configure e 4 s)))))))
            \<and> SolveGraph_iterations e context = 5)
   \<and> (\<forall>s. SolveGraph_state_at e context 4 = Some s
            \<and> snd (snd (MakeResourcesOperational e (graph (expand_and_configure e 4 s)))) = None
            \<and> ValidateConstraints e (constructsMapping context)
                  (fst (MakeResourcesOperational e (graph (expand_and_configure e 4 s)))) = []
            \<and> errorMap (outcome_state (SolveGraph_body e context 4 s)) 4 \<noteq> []
        \<longrightarrow> SolveGraph e context
              = (graph (outcome_state (SolveGraph_body e context 4 s)),
                 Some (SolvingErrors
                         (errorMap (outcome_state (SolveGraph_body e context 4 s)) 4)))
            \<and> SolveGraph_iterations e context = 5)"
proof (intro conjI allI impI)
  show "SolveGraph_iterations e context \<le> 5" by (rule run_iterations_le)
next
  fix i s
  assume a: "SolveGraph_state_at e context i = Some s \<and> i < 5
            \<and> errorMap (outcome_state (SolveGraph_body e context i s)) i = []
            \<and> \<not> (i = 4 \<and> ValidateConstraints e (constructsMapping context)
                            (graph (outcome_state (SolveGraph_body e context i s))) \<noteq> [])"
  then have r: "SolveGraph_run e context = (outcome_state (SolveGraph_body e context i s), None, Suc i)"
    using clean_iteration[of e "context" i s] by (simp add: NUM_LOOPS_def)
  show "SolveGraph e context = (graph (outcome_state (SolveGraph_body e context i s)), None)"
    by (simp add: SolveGraph_def r)
  show "SolveGraph_iterations e context = Suc i"
    by (simp add: SolveGraph_iterations_def r)
next
  fix s
  assume a: "SolveGraph_state_at e context 4 = Some s
            \<and> snd (snd (MakeResourcesOperational e (graph (expand_and_configure e 4 s)))) = None
            \<and> errorMap (outcome_state (SolveGraph_body e context 4 s)) 4 \<noteq> []"
  then obtain er where "SolveGraph_run e context
            = (outcome_state (SolveGraph_body e context 4 s), Some er, NUM_LOOPS)"
    using last_iteration_errors[of e "context" s] by (auto simp: NUM_LOOPS_def)
  then show "\<exists>er. SolveGraph e context
                    = (graph (outcome_state (SolveGraph_body e context 4 s)), Some er)"
    by (auto simp: SolveGraph_def)
next
  fix g er
  assume a: "SolveGraph e context = (g, Some er)"
  then obtain s' n where r: "SolveGraph_run e context = (s', Some er, n)" and g: "g = graph s'"
    by (auto simp: SolveGraph_def split: prod.splits)
  have r': "SolveGraph_loop e context 0 (SolveGraph_init context) = (s', Some er, n)"
    using r by (simp add: SolveGraph_run_def)
  have "SolveGraph_state_at e context 0 = Some (SolveGraph_init context)" by simp
  from loop_error_from_last[OF this r'] obtain s where
    n: "n = NUM_LOOPS" and s: "SolveGraph_state_at e context 4 = Some s"
    and b: "SolveGraph_body e context 4 s = Return s' er"
    by (auto simp: NUM_LOOPS_def)
  show "SolveGraph_iterations e context = 5"
    using r n by (simp add: SolveGraph_iterations_def NUM_LOOPS_def)
  have f: "errorMap s 4 = []" using state_at_fresh[OF s] by simp
  show "\<exists>s s'. SolveGraph_state_at e context 4 = Some s \<and> errorMap s 4 = []
                  \<and> SolveGraph_body e context 4 s = Return s' er \<and> g = graph s'
                  \<and> (er = SolvingErrors (errorMap s' 4) \<and> errorMap s' 4 \<noteq> []
                      \<or> er = UnsatisfiedConstraints
                               (ValidateConstraints e (constructsMapping context) g)
                        \<and> ValidateConstraints e (constructsMapping context) g \<noteq> [])"
    using s f b g body_Return_last[OF b] by auto
next
  fix s
  assume a: "SolveGraph_state_at e context 4 = Some s
            \<and> snd (snd (MakeResourcesOperational e (graph (expand_and_configure e 4 s)))) = None
            \<and> ValidateConstraints e (constructsMapping context)
                  (fst (MakeResourcesOperational e (graph (expand_and_configure e 4 s)))) \<noteq> []"
  have r: "SolveGraph_run e context
           = ((expand_and_configure e 4 s)
                \<lparr>graph := fst (MakeResourcesOperational e (graph (expand_and_configure e 4 s)))\<rparr>,
              Some (UnsatisfiedConstraints (ValidateConstraints e (constructsMapping context)
                 (fst (MakeResourcesOperational e (graph (expand_and_configure e 4 s)))))),
              5)"
    using last_iteration_unsatisfied[of e "context" s] a by (simp add: NUM_LOOPS_def)
  show "SolveGraph e context
              = (fst (MakeResourcesOperational e (graph (expand_and_configure e 4 s))),
                 Some (UnsatisfiedConstraints (ValidateConstraints e (constructsMapping context)
                   (fst (MakeResourcesOperational e (graph (expand_and_configure e 4 s)))))))"
    by (simp add: SolveGraph_def r)
  show "SolveGraph_iterations e context = 5"
    by (simp add: SolveGraph_iterations_def r)
next
  fix s
  assume a: "SolveGraph_state_at e context 4 = Some s
            \<and> snd (snd (MakeResourcesOperational e (graph (expand_and_configure e 4 s)))) = None
            \<and> ValidateConstraints e (constructsMapping context)
                  (fst (MakeResourcesOperational e (graph (expand_and_configure e 4 s)))) = []
            \<and> errorMap (outcome_state (SolveGraph_body e context 4 s)) 4 \<noteq> []"
  have r: "SolveGraph_run e context
           = (outcome_state (SolveGraph_body e context 4 s),
              Some (SolvingErrors (errorMap (outcome_state (SolveGraph_body e context 4 s)) 4)),
              5)"
    using last_iteration_solving_errors[of e "context" s] a by (simp add: NUM_LOOPS_def)
  show "SolveGraph e context
              = (graph (outcome_state (SolveGraph_body e context 4 s)),
                 Some (SolvingErrors
                         (errorMap (outcome_state (SolveGraph_body e context 4 s)) 4)))"
    by (simp add: SolveGraph_def r)
  show "SolveGraph_iterations e context = 5"
    by (simp add: SolveGraph_iterations_def r)
qed

lemmas example_defs = example_engine_def example_context_def SolveGraph_init_def
  SolveGraph_body_def expand_and_configure_def record_error_def NUM_LOOPS_def
  not_operational_def SolveGraph_def SolveGraph_iterations_def SolveGraph_run_def

theorem SolveGraph_bounded_last_errors_witness:
  "(\<exists>s. SolveGraph_state_at (example_engine 2 0 []) example_context 2 = Some s
       \<and> errorMap (outcome_state (SolveGraph_body (example_engine 2 0 []) example_context 2 s)) 2 = []
       \<and> SolveGraph (example_engine 2 0 []) example_context = (3, None)
       \<and> SolveGraph_iterations (example_engine 2 0 []) example_context = 3)
   \<and> (\<exists>s. SolveGraph_state_at (example_engine 10 0 []) example_context 4 = Some s
       \<and> errorMap s 4 = []
       \<and> errorMap (outcome_state (SolveGraph_body (example_engine 10 0 []) example_context 4 s)) 4
            = [Opaque ''expand'']
       \<and> SolveGraph (example_engine 10 0 []) example_context
            = (5, Some (SolvingErrors [Opaque ''expand'']))
       \<and> SolveGraph_iterations (example_engine 10 0 []) example_context = 5)
   \<and> (\<exists>s. SolveGraph_state_at (example_engine 4 0 [''c'']) example_context 4 = Some s
       \<and> snd (snd (MakeResourcesOperational (example_engine 4 0 [''c''])
                       (graph (expand_and_configure (example_engine 4 0 [''c'']) 4 s)))) = None
       \<and> SolveGraph (example_engine 4 0 [''c'']) example_context
            = (5, Some (UnsatisfiedConstraints [''c'']))
       \<and> SolveGraph_iterations (example_engine 4 0 [''c'']) example_context = 5)"
proof (intro conjI)
  let ?E = "example_engine 2 0 []"
  obtain s where s: "SolveGraph_state_at ?E example_context 2 = Some s"
    by (simp add: example_defs eval_nat_numeral)
  have c: "errorMap (outcome_state (SolveGraph_body ?E example_context 2 s)) 2 = []"
    using s by (auto simp: example_defs eval_nat_numeral)
  have g: "graph (outcome_state (SolveGraph_body ?E example_context 2 s)) = 3"
    using s by (auto simp: example_defs eval_nat_numeral)
  have "SolveGraph ?E example_context
          = (graph (outcome_state (SolveGraph_body ?E example_context 2 s)), None)
        \<and> SolveGraph_iterations ?E example_context = Suc 2"
    using SolveGraph_bounded_last_errors[of ?E example_context, THEN conjunct2, THEN conjunct1,
        rule_format, of 2 s] s c by simp
  then show "\<exists>s. SolveGraph_state_at ?E example_context 2 = Some s
       \<and> errorMap (outcome_state (SolveGraph_body ?E example_context 2 s)) 2 = []
       \<and> SolveGraph ?E example_context = (3, None)
       \<and> SolveGraph_iterations ?E example_context = 3"
    using s c g by auto
next
  let ?E = "example_engine 10 0 []"
  have r: "SolveGraph ?E example_context = (5, Some (SolvingErrors [Opaque ''expand'']))"
    by (simp add: example_defs SolveGraph_loop.simps)
  from SolveGraph_bounded_last_errors[of ?E example_context, THEN conjunct2, THEN conjunct2,
        THEN conjunct2, THEN conjunct1, rule_format, OF r]
  obtain s s' where n: "SolveGraph_iterations ?E example_context = 5"
    and s: "SolveGraph_state_at ?E example_context 4 = Some s" and f: "errorMap s 4 = []"
    and b: "SolveGraph_body ?E example_context 4 s = Return s' (SolvingErrors [Opaque ''expand''])"
    and e: "SolvingErrors [Opaque ''expand''] = SolvingErrors (errorMap s' 4)
           \<or> SolvingErrors [Opaque ''expand''] = UnsatisfiedConstraints
                               (ValidateConstraints ?E (constructsMapping example_context) 5)"
    by auto
  have "errorMap (outcome_state (SolveGraph_body ?E example_context 4 s)) 4 = [Opaque ''expand'']"
    using b e by auto
  then show "\<exists>s. SolveGraph_state_at ?E example_context 4 = Some s
       \<and> errorMap s 4 = []
       \<and> errorMap (outcome_state (SolveGraph_body ?E example_context 4 s)) 4 = [Opaque ''expand'']
       \<and> SolveGraph ?E example_context = (5, Some (SolvingErrors [Opaque ''expand'']))
       \<and> SolveGraph_iterations ?E example_context = 5"
    using s f r n by auto
next
  let ?E = "example_engine 4 0 [''c'']"
  obtain s where s: "SolveGraph_state_at ?E example_context 4 = Some s"
    by (simp add: example_defs eval_nat_numeral)
  have m: "snd (snd (MakeResourcesOperational ?E (graph (expand_and_configure ?E 4 s)))) = None"
    using s by (auto simp: example_defs eval_nat_numeral)
  have g: "fst (MakeResourcesOperational ?E (graph (expand_and_configure ?E 4 s))) = 5"
    using s by (auto simp: example_defs eval_nat_numeral)
  have v: "ValidateConstraints ?E (constructsMapping example_context)
             (fst (MakeResourcesOperational ?E (graph (expand_and_configure ?E 4 s)))) = [''c'']"
    by (simp add: example_engine_def)
  have "SolveGraph ?E example_context
              = (fst (MakeResourcesOperational ?E (graph (expand_and_configure ?E 4 s))),
                 Some (UnsatisfiedConstraints (ValidateConstraints ?E (constructsMapping example_context)
                   (fst (MakeResourcesOperational ?E (graph (expand_and_configure ?E 4 s)))))))
            \<and> SolveGraph_iterations ?E example_context = 5"
    using SolveGraph_bounded_last_errors[of ?E example_context, THEN conjunct2, THEN conjunct2,
        THEN conjunct2, THEN conjunct2, THEN conjunct1, rule_format, of s] s m v by simp
  then show "\<exists>s. SolveGraph_state_at ?E example_context 4 = Some s
       \<and> snd (snd (MakeResourcesOperational ?E (graph (expand_and_configure ?E 4 s)))) = None
       \<and> SolveGraph ?E example_context = (5, Some (UnsatisfiedConstraints [''c'']))
       \<and> SolveGraph_iterations ?E example_context = 5"
    using s m g v by auto
qed

text \<open>
  The fifth iteration can record no error and still not end with success: with unsatisfied
  constraints the call returns the \<^verbatim>\<open>unsatisfied constraints\<close> error, which is not built
  from recorded errors.
\<close>

theorem SolveGraph_clean_last_iteration_counterexample:
  "SolveGraph (example_engine 4 0 [''c'']) example_context
     = (5, Some (UnsatisfiedConstraints [''c'']))
   \<and> errorMap (fst (SolveGraph_run (example_engine 4 0 [''c'']) example_context)) 4 = []
   \<and> SolveGraph_iterations (example_engine 4 0 [''c'']) example_context = 5"
  by (simp add: example_defs SolveGraph_loop.simps)

text \<open>
  When \<^verbatim>\<open>MakeResourcesOperational\<close> fails in the fifth iteration, the
  \<^verbatim>\<open>continue\<close> leaves the loop: the error is in \<^verbatim>\<open>errorMap[4]\<close> and the call
  returns a nil error.
\<close>

lemma SolveGraph_last_operational_error_dropped:
  "SolveGraph (example_engine 0 10 []) example_context = (5, None)
   \<and> errorMap (fst (SolveGraph_run (example_engine 0 10 []) example_context)) 4
        = [Opaque ''operational'']
   \<and> SolveGraph_iterations (example_engine 0 10 []) example_context = 5"
  by (simp add: example_defs SolveGraph_loop.simps)

text \<open>
  Claim C8, as the code has it. The bound is the constant \<^verbatim>\<open>NUM_LOOPS := 5\<close>;
  \<^verbatim>\<open>SolveGraph\<close> does not read the environment: whatever the environment holds
  (\<^verbatim>\<open>PLAN_ITERATIONS\<close> included), the loop body is entered at most 5 times and the
  result is the same.
\<close>

theorem SolveGraph_ignores_PLAN_ITERATIONS:
  "SolveGraph_iterations (e\<lparr>Getenv := env\<rparr>) context \<le> 5
   \<and> SolveGraph_iterations (e\<lparr>Getenv := env\<rparr>) context = SolveGraph_iterations e context
   \<and> SolveGraph (e\<lparr>Getenv := env\<rparr>) context = SolveGraph e context"
  using run_iterations_le[of "e\<lparr>Getenv := env\<rparr>" "context"]
  by (simp add: SolveGraph_iterations_def SolveGraph_def SolveGraph_run_def loop_env_irrelevant)

text \<open>With \<^verbatim>\<open>PLAN_ITERATIONS=1\<close> in the environment the loop body is entered 5 times.\<close>

theorem PLAN_ITERATIONS_counterexample:
  "Getenv (example_engine 10 0 []) ''PLAN_ITERATIONS'' = ''1''
   \<and> SolveGraph_iterations (example_engine 10 0 []) example_context = 5"
  by (simp add: example_defs SolveGraph_loop.simps)

section \<open>Properties of \<^verbatim>\<open>Run\<close>\<close>

lemma solve_contexts_count:
  "snd (solve_contexts e cs Solution n) = n + length cs"
  by (induction cs arbitrary: Solution n) (auto split: prod.splits)

lemma solve_contexts_keeps:
  "fst (solve_contexts e cs (Some g) n) = Some g"
  by (induction cs arbitrary: n) (auto split: prod.splits)

text \<open>
  Claim C1, as the code has it. When the steps before the solve loop succeed,
  \<^verbatim>\<open>Run\<close> calls \<^verbatim>\<open>SolveGraph\<close> on every generated context, in order, and counts
  each of them; it returns a nil error whatever the calls returned, since their errors are
  only logged. With no context the returned graph is nil; when the solve of the first
  context succeeds, its graph is returned.
\<close>

theorem Run_solves_all_returns_nil_error:
  assumes "Run_prepare r applicationConstraints edgeConstraints w = Inr (w', contextsToSolve)"
  shows "snd (Run r e applicationConstraints edgeConstraints w None) = None
         \<and> snd (solve_contexts e contextsToSolve None 0) = length contextsToSolve
         \<and> (contextsToSolve = []
              \<longrightarrow> fst (Run r e applicationConstraints edgeConstraints w None) = None)
         \<and> (\<forall>c cs g. contextsToSolve = c # cs \<and> SolveGraph e c = (g, None)
              \<longrightarrow> fst (Run r e applicationConstraints edgeConstraints w None) = Some g)"
  using assms by (auto simp: Run_def solve_contexts_count solve_contexts_keeps)

theorem Run_solves_all_returns_nil_error_witness:
  "Run_prepare example_steps [] [] [context_from 20, context_from 0]
     = Inr ([context_from 20, context_from 0], [context_from 20, context_from 0])
   \<and> SolveGraph (example_engine 10 0 []) (context_from 20) = (21, None)
   \<and> Run example_steps (example_engine 10 0 []) [] [] [context_from 20, context_from 0] None
       = (Some 21, None)
   \<and> snd (solve_contexts (example_engine 10 0 []) [context_from 20, context_from 0] None 0) = 2"
proof -
  have p: "Run_prepare example_steps [] [] [context_from 20, context_from 0]
     = Inr ([context_from 20, context_from 0], [context_from 20, context_from 0])"
    by (simp add: Run_prepare_def example_steps_def)
  have s: "SolveGraph (example_engine 10 0 []) (context_from 20) = (21, None)"
    by (simp add: example_defs context_from_def SolveGraph_loop.simps)
  show ?thesis
    using Run_solves_all_returns_nil_error[OF p, of "example_engine 10 0 []"] p s
    by (cases "Run example_steps (example_engine 10 0 []) [] [] [context_from 20, context_from 0] None")
       auto
qed

text \<open>
  The only context fails to solve, and \<^verbatim>\<open>Run\<close> returns its graph with a nil error:
  the diagnostics are not returned.
\<close>

theorem Run_failed_solve_counterexample:
  "SolveGraph (example_engine 10 0 []) (context_from 0)
     = (5, Some (SolvingErrors [Opaque ''expand'']))
   \<and> Run example_steps (example_engine 10 0 []) [] [] [context_from 0] None = (Some 5, None)"
  by (simp add: example_defs context_from_def SolveGraph_loop.simps Run_def Run_prepare_def
      example_steps_def)

text \<open>
  The first context fails and the second succeeds: \<^verbatim>\<open>e.Context.Solution\<close> was set from
  the first one and is not replaced.
\<close>

lemma Run_keeps_first_failed_graph:
  "SolveGraph (example_engine 10 0 []) (context_from 0)
     = (5, Some (SolvingErrors [Opaque ''expand'']))
   \<and> SolveGraph (example_engine 10 0 []) (context_from 20) = (21, None)
   \<and> Run example_steps (example_engine 10 0 []) [] [] [context_from 0, context_from 20] None
       = (Some 5, None)"
  by (simp add: example_defs context_from_def SolveGraph_loop.simps Run_def Run_prepare_def
      example_steps_def)

section \<open>Properties of \<^verbatim>\<open>FindPaths\<close>\<close>


lemma path_nodes_nonempty [simp]: "path_nodes s xs \<noteq> []"
  by (cases xs) auto


lemma length_path_nodes [simp]: "length (path_nodes s xs) = Suc (length xs)"
  by (induction xs arbitrary: s) auto







section \<open>Properties of \<^verbatim>\<open>ExpandEdges\<close>\<close>

















section \<open>Properties of \<^verbatim>\<open>handleEdgeConstainConstraint\<close>\<close>

lemma add_edge_data_srcs_no_dst:
  "add_edge_data_srcs ops constraint resource srcNodes [] g = (g, None)"
  by (induction srcNodes) auto

text \<open>
  Claim C9, as the code has it. In the engine variant with an end state, when the
  destination of the target edge of a constraint is not a construct and is a resource of
  the end state, \<^verbatim>\<open>dstNodes\<close> stays empty, the two loops do nothing, and the end state is
  returned unchanged. The function returns nil when the source of the target edge
  resolves (a mapped construct, or a resource of the end state) and
  \<^verbatim>\<open>CreateResourceFromId\<close> succeeds; otherwise it returns the error of the step that
  failed.
\<close>

theorem endstate_constraint_on_resource_destination:
  assumes "Provider (edge_Target (Target constraint)) \<noteq> AbstractConstructProvider"
    and "es_GetResource ops g (edge_Target (Target constraint)) \<noteq> None"
  shows "destination_nodes ops constraint g = Inr []
     \<and> add_edge_data_srcs ops constraint resource srcNodes [] g = (g, None)
     \<and> fst (handleEdgeConstainConstraint_endstate ops constraint w g) = g
     \<and> snd (handleEdgeConstainConstraint_endstate ops constraint w g)
         = (case source_nodes ops constraint g of
              Inl er \<Rightarrow> Some er
            | Inr srcNodes \<Rightarrow>
                (case CreateResourceFromId ops (Node constraint) w of
                   Inl er \<Rightarrow> Some er
                 | Inr resource \<Rightarrow> None))"
  using assms
  by (auto simp: handleEdgeConstainConstraint_endstate_def destination_nodes_def Let_def
      add_edge_data_srcs_no_dst split: sum.splits option.splits)

theorem endstate_constraint_on_resource_destination_witness:
  "Provider (edge_Target (Target must_contain_proxy)) \<noteq> AbstractConstructProvider
   \<and> es_GetResource example_endstate_ops example_end_state (edge_Target (Target must_contain_proxy))
        = Some (resource_from_id (rid ''aws'' ''RdsInstance'' ''db''))
   \<and> handleEdgeConstainConstraint_endstate example_endstate_ops must_contain_proxy ()
        example_end_state = (example_end_state, None)"
proof -
  have a: "Provider (edge_Target (Target must_contain_proxy)) \<noteq> AbstractConstructProvider"
    by (simp add: must_contain_proxy_def rid_def AbstractConstructProvider_def)
  have b: "es_GetResource example_endstate_ops example_end_state
             (edge_Target (Target must_contain_proxy))
           = Some (resource_from_id (rid ''aws'' ''RdsInstance'' ''db''))"
    by (simp add: must_contain_proxy_def rid_def example_endstate_ops_def example_end_state_def
        resource_from_id_def)
  have c: "source_nodes example_endstate_ops must_contain_proxy example_end_state
             = Inr [resource_from_id (rid ''aws'' ''LambdaFunction'' ''api'')]"
    by (simp add: source_nodes_def must_contain_proxy_def rid_def example_endstate_ops_def
        example_end_state_def resource_from_id_def AbstractConstructProvider_def)
  have d: "CreateResourceFromId example_endstate_ops (Node must_contain_proxy) ()
             = Inr (resource_from_id (rid ''aws'' ''RdsProxy'' []))"
    by (simp add: must_contain_proxy_def example_endstate_ops_def)
  from endstate_constraint_on_resource_destination[OF a, where ops = example_endstate_ops
      and g = example_end_state and w = "()"] b c d
  show ?thesis using a by (simp add: prod_eq_iff)
qed

text \<open>
  The destination is a resource of the end state and the source is not: the function
  returns the error \<^verbatim>\<open>unable to find resource\<close>, not nil.
\<close>

theorem endstate_constraint_missing_source_counterexample:
  "Provider (edge_Target (Target must_contain_missing_source)) \<noteq> AbstractConstructProvider
   \<and> es_GetResource example_endstate_ops example_end_state
        (edge_Target (Target must_contain_missing_source))
        = Some (resource_from_id (rid ''aws'' ''RdsInstance'' ''db''))
   \<and> handleEdgeConstainConstraint_endstate example_endstate_ops must_contain_missing_source ()
        example_end_state
        = (example_end_state,
           Some (UnableToFindResource (rid ''aws'' ''LambdaFunction'' ''other'')))"
  by (simp add: handleEdgeConstainConstraint_endstate_def source_nodes_def destination_nodes_def
      must_contain_missing_source_def rid_def example_endstate_ops_def example_end_state_def
      resource_from_id_def AbstractConstructProvider_def)






section \<open>Properties of \<^verbatim>\<open>expandEdge\<close>\<close>

lemma ResourceId_eqI:
  fixes a b :: ResourceId
  shows "Provider a = Provider b \<Longrightarrow> Type a = Type b \<Longrightarrow> Namespace a = Namespace b
    \<Longrightarrow> Name a = Name b \<Longrightarrow> a = b"
  by (cases a, cases b) simp

lemma ResourceIdLess_irrefl: "\<not> ResourceIdLess a a"
  by (simp add: ResourceIdLess_def)

lemma RIL_P: "Provider a < Provider c \<Longrightarrow> ResourceIdLess a c"
  by (auto simp: ResourceIdLess_def)

lemma RIL_T: "Provider a = Provider c \<Longrightarrow> Type a < Type c \<Longrightarrow> ResourceIdLess a c"
  by (auto simp: ResourceIdLess_def)

lemma RIL_N: "Provider a = Provider c \<Longrightarrow> Type a = Type c \<Longrightarrow> Namespace a < Namespace c
    \<Longrightarrow> ResourceIdLess a c"
  by (auto simp: ResourceIdLess_def)

lemma RIL_M: "Provider a = Provider c \<Longrightarrow> Type a = Type c \<Longrightarrow> Namespace a = Namespace c
    \<Longrightarrow> Name a < Name c \<Longrightarrow> ResourceIdLess a c"
  by (auto simp: ResourceIdLess_def)

lemma ResourceIdLess_trans:
  assumes ab: "ResourceIdLess a b" and bc: "ResourceIdLess b c"
  shows "ResourceIdLess a c"
proof -
  have lt: "\<And>x y z :: string. x < y \<Longrightarrow> y < z \<Longrightarrow> x < z" by (rule less_trans)
  have ne: "\<And>x y :: string. x < y \<Longrightarrow> x \<noteq> y" by simp
  consider (p) "Provider a \<noteq> Provider b" | (t) "Provider a = Provider b" "Type a \<noteq> Type b"
    | (n) "Provider a = Provider b" "Type a = Type b" "Namespace a \<noteq> Namespace b"
    | (m) "Provider a = Provider b" "Type a = Type b" "Namespace a = Namespace b"
    by blast
  then show ?thesis
  proof cases
    case p
    then have 1: "Provider a < Provider b" using ab by (simp add: ResourceIdLess_def)
    show ?thesis
    proof (cases "Provider b = Provider c")
      case True
      then show ?thesis using 1 by (auto intro: RIL_P RIL_T RIL_N RIL_M)
    next
      case False
      then have "Provider b < Provider c" using bc by (simp add: ResourceIdLess_def)
      then have "Provider a < Provider c" using 1 lt by blast
      then show ?thesis by (auto intro: RIL_P RIL_T RIL_N RIL_M)
    qed
  next
    case t
    then have 1: "Type a < Type b" using ab by (simp add: ResourceIdLess_def)
    show ?thesis
    proof (cases "Provider b = Provider c")
      case False
      then have "Provider b < Provider c" using bc by (simp add: ResourceIdLess_def)
      then show ?thesis using t(1) by (auto intro: RIL_P RIL_T RIL_N RIL_M)
    next
      case True
      show ?thesis
      proof (cases "Type b = Type c")
        case True
        then show ?thesis using 1 t \<open>Provider b = Provider c\<close> by (auto intro: RIL_P RIL_T RIL_N RIL_M)
      next
        case False
        then have "Type b < Type c" using bc True by (simp add: ResourceIdLess_def)
        then have "Type a < Type c" using 1 lt by blast
        then show ?thesis using t True by (auto intro: RIL_P RIL_T RIL_N RIL_M)
      qed
    qed
  next
    case n
    then have 1: "Namespace a < Namespace b" using ab by (simp add: ResourceIdLess_def)
    show ?thesis
    proof (cases "Provider b = Provider c")
      case False
      then have "Provider b < Provider c" using bc by (simp add: ResourceIdLess_def)
      then show ?thesis using n(1) by (auto intro: RIL_P RIL_T RIL_N RIL_M)
    next
      case pe: True
      show ?thesis
      proof (cases "Type b = Type c")
        case False
        then have "Type b < Type c" using bc pe by (simp add: ResourceIdLess_def)
        then show ?thesis using n pe by (auto intro: RIL_P RIL_T RIL_N RIL_M)
      next
        case te: True
        show ?thesis
        proof (cases "Namespace b = Namespace c")
          case True
          then show ?thesis using 1 n pe te by (auto intro: RIL_P RIL_T RIL_N RIL_M)
        next
          case False
          then have "Namespace b < Namespace c" using bc pe te by (simp add: ResourceIdLess_def)
          then have "Namespace a < Namespace c" using 1 lt by blast
          then show ?thesis using n pe te by (auto intro: RIL_P RIL_T RIL_N RIL_M)
        qed
      qed
    qed
  next
    case m
    then have 1: "Name a < Name b" using ab by (simp add: ResourceIdLess_def)
    show ?thesis
    proof (cases "Provider b = Provider c")
      case False
      then have "Provider b < Provider c" using bc by (simp add: ResourceIdLess_def)
      then show ?thesis using m(1) by (auto intro: RIL_P RIL_T RIL_N RIL_M)
    next
      case pe: True
      show ?thesis
      proof (cases "Type b = Type c")
        case False
        then have "Type b < Type c" using bc pe by (simp add: ResourceIdLess_def)
        then show ?thesis using m pe by (auto intro: RIL_P RIL_T RIL_N RIL_M)
      next
        case te: True
        show ?thesis
        proof (cases "Namespace b = Namespace c")
          case False
          then have "Namespace b < Namespace c" using bc pe te by (simp add: ResourceIdLess_def)
          then show ?thesis using m pe te by (auto intro: RIL_P RIL_T RIL_N RIL_M)
        next
          case True
          then have "Name b < Name c" using bc pe te by (simp add: ResourceIdLess_def)
          then have "Name a < Name c" using 1 lt by blast
          then show ?thesis using m pe te True by (auto intro: RIL_P RIL_T RIL_N RIL_M)
        qed
      qed
    qed
  qed
qed

lemma ResourceIdLess_total:
  fixes a b :: ResourceId
  assumes "a \<noteq> b"
  shows "ResourceIdLess a b \<or> ResourceIdLess b a"
proof -
  have tot: "\<And>x y :: string. x \<noteq> y \<Longrightarrow> x < y \<or> y < x" by (rule neqE) auto
  consider (p) "Provider a \<noteq> Provider b" | (t) "Provider a = Provider b" "Type a \<noteq> Type b"
    | (n) "Provider a = Provider b" "Type a = Type b" "Namespace a \<noteq> Namespace b"
    | (m) "Provider a = Provider b" "Type a = Type b" "Namespace a = Namespace b"
          "Name a \<noteq> Name b"
    using ResourceId_eqI[of a b] assms by blast
  then show ?thesis
  proof cases
    case p
    then show ?thesis using tot[OF p] by (auto simp: ResourceIdLess_def)
  next
    case t
    then show ?thesis using tot[OF t(2)] by (auto simp: ResourceIdLess_def)
  next
    case n
    then show ?thesis using tot[OF n(3)] by (auto simp: ResourceIdLess_def)
  next
    case m
    then show ?thesis using tot[OF m(4)] by (auto simp: ResourceIdLess_def)
  qed
qed

lemma fdl_irrefl: "\<not> first_difference_less lt p p"
  by (induction p) auto

lemma fdl_trans:
  assumes tr: "\<And>a b c. lt a b \<Longrightarrow> lt b c \<Longrightarrow> lt a c" and ir: "\<And>a. \<not> lt a a"
  shows "length p = length q \<Longrightarrow> length q = length r \<Longrightarrow>
     first_difference_less lt p q \<Longrightarrow> first_difference_less lt q r \<Longrightarrow>
     first_difference_less lt p r"
proof (induction p arbitrary: q r)
  case Nil
  then show ?case by simp
next
  case (Cons a p)
  from Cons.prems(1,2) obtain b q' c r' where q: "q = b # q'" and r: "r = c # r'"
    by (cases q; cases r) auto
  have l: "length p = length q'" "length q' = length r'" using Cons.prems q r by auto
  show ?case
  proof (cases "a = b")
    case ab: True
    show ?thesis
    proof (cases "b = c")
      case True
      then show ?thesis using Cons.prems Cons.IH[OF l] ab unfolding q r by simp
    next
      case False
      then show ?thesis using Cons.prems ab unfolding q r by simp
    qed
  next
    case ab: False
    then have 1: "lt a b" using Cons.prems unfolding q r by simp
    show ?thesis
    proof (cases "b = c")
      case True
      then show ?thesis using 1 ab unfolding q r by simp
    next
      case False
      then have "lt b c" using Cons.prems unfolding q r by simp
      then have "lt a c" using 1 tr by blast
      moreover have "a \<noteq> c" using \<open>lt a c\<close> ir by auto
      ultimately show ?thesis unfolding q r by simp
    qed
  qed
qed

lemma fdl_total:
  assumes tot: "\<And>a b. a \<noteq> b \<Longrightarrow> lt a b \<or> lt b a"
  shows "length p = length q \<Longrightarrow> p \<noteq> q \<Longrightarrow>
     first_difference_less lt p q \<or> first_difference_less lt q p"
proof (induction p arbitrary: q)
  case Nil
  then show ?case by simp
next
  case (Cons a p)
  from Cons.prems(1) obtain b q' where q: "q = b # q'" by (cases q) auto
  show ?case
  proof (cases "a = b")
    case True
    then have "p \<noteq> q'" "length p = length q'" using Cons.prems q by auto
    then show ?thesis using Cons.IH[of q'] True unfolding q by simp
  next
    case False
    then show ?thesis using tot[of a b] unfolding q by auto
  qed
qed

text \<open>The comparison function of \<^verbatim>\<open>expandEdge\<close> is a strict total order on paths.\<close>

lemma path_less_irrefl: "\<not> path_less ResourceIdLess p p"
  by (simp add: path_less_def fdl_irrefl)

lemma path_less_trans:
  assumes "path_less ResourceIdLess p q" and "path_less ResourceIdLess q r"
  shows "path_less ResourceIdLess p r"
proof -
  have f: "first_difference_less ResourceIdLess p r"
    if "length p = length q" "length q = length r"
       "first_difference_less ResourceIdLess p q" "first_difference_less ResourceIdLess q r"
    using fdl_trans[of ResourceIdLess p q r] ResourceIdLess_trans ResourceIdLess_irrefl that
    by blast
  show ?thesis
    using assms f unfolding path_less_def by (auto split: if_splits)
qed

lemma path_less_total:
  assumes "p \<noteq> q"
  shows "path_less ResourceIdLess p q \<or> path_less ResourceIdLess q p"
proof (cases "length p = length q")
  case True
  then show ?thesis
    using fdl_total[of ResourceIdLess p q] ResourceIdLess_total assms
    by (auto simp: path_less_def)
next
  case False
  then show ?thesis by (auto simp: path_less_def)
qed

lemma path_less_asym:
  "path_less ResourceIdLess p q \<Longrightarrow> \<not> path_less ResourceIdLess q p"
  using path_less_trans[of p q p] path_less_irrefl[of p] by blast

text \<open>Insertion sort by a strict total order: a sorted permutation, and the only one.\<close>

lemma mset_insert_by: "mset (insert_by lt x xs) = add_mset x (mset xs)"
  by (induction xs) auto

lemma mset_sort_Slice: "mset (sort_Slice lt xs) = mset xs"
  by (induction xs) (auto simp: mset_insert_by)

lemma set_insert_by: "set (insert_by lt x xs) = insert x (set xs)"
  using mset_insert_by[of lt x xs] by (metis set_mset_add_mset_insert set_mset_mset)

lemma sorted_insert_by:
  assumes tr: "\<And>a b c. lt a b \<Longrightarrow> lt b c \<Longrightarrow> lt a c"
    and asym: "\<And>a b. lt a b \<Longrightarrow> \<not> lt b a"
    and tot: "\<And>a b. a \<noteq> b \<Longrightarrow> lt a b \<or> lt b a"
  shows "sorted_wrt (\<lambda>a b. \<not> lt b a) xs \<Longrightarrow> sorted_wrt (\<lambda>a b. \<not> lt b a) (insert_by lt x xs)"
proof (induction xs)
  case Nil
  then show ?case by simp
next
  case (Cons y ys)
  show ?case
  proof (cases "lt y x")
    case True
    have "\<not> lt z y" if "z \<in> set (insert_by lt x ys)" for z
      using that True asym Cons.prems by (auto simp: set_insert_by)
    then show ?thesis using True Cons by simp
  next
    case False
    have "\<not> lt z x" if "z \<in> set ys" for z
    proof
      assume zx: "lt z x"
      have "\<not> lt z y" using that Cons.prems by simp
      then have "y = z \<or> lt y z" using tot[of y z] by auto
      then have "lt y x" using zx tr by auto
      then show False using False by simp
    qed
    then show ?thesis using False Cons.prems by auto
  qed
qed

lemma sorted_sort_Slice:
  assumes tr: "\<And>a b c. lt a b \<Longrightarrow> lt b c \<Longrightarrow> lt a c"
    and asym: "\<And>a b. lt a b \<Longrightarrow> \<not> lt b a"
    and tot: "\<And>a b. a \<noteq> b \<Longrightarrow> lt a b \<or> lt b a"
  shows "sorted_wrt (\<lambda>a b. \<not> lt b a) (sort_Slice lt xs)"
  by (induction xs) (auto intro: sorted_insert_by[OF tr asym tot])

lemma sorted_wrt_unique:
  assumes tot: "\<And>a b. a \<noteq> b \<Longrightarrow> lt a b \<or> lt b a"
  shows "sorted_wrt (\<lambda>a b. \<not> lt b a) xs \<Longrightarrow> sorted_wrt (\<lambda>a b. \<not> lt b a) ys \<Longrightarrow>
     mset xs = mset ys \<Longrightarrow> xs = ys"
proof (induction xs arbitrary: ys)
  case Nil
  then show ?case by simp
next
  case (Cons x xs)
  then obtain y ys' where ys: "ys = y # ys'" by (cases ys) auto
  have "x \<in> set (y # ys')" using Cons.prems(3) ys by (metis list.set_intros(1) mset_eq_setD)
  then have 1: "x = y \<or> \<not> lt x y" using Cons.prems(2) ys by auto
  have "y \<in> set (x # xs)" using Cons.prems(3) ys by (metis list.set_intros(1) mset_eq_setD)
  then have 2: "x = y \<or> \<not> lt y x" using Cons.prems(1) by auto
  have xy: "x = y" using 1 2 tot[of x y] by blast
  then have "mset xs = mset ys'" using Cons.prems(3) ys by simp
  then have "xs = ys'" using Cons.IH[of ys'] Cons.prems(1,2) ys by simp
  then show ?case using xy ys by simp
qed

lemma sorted_paths_unique:
  assumes "mset ys = mset paths" and "sorted_wrt (\<lambda>p q. \<not> path_less ResourceIdLess q p) ys"
  shows "ys = sort_Slice (path_less ResourceIdLess) paths"
proof -
  have s: "sorted_wrt (\<lambda>p q. \<not> path_less ResourceIdLess q p)
             (sort_Slice (path_less ResourceIdLess) paths)"
    by (rule sorted_sort_Slice[of "path_less ResourceIdLess"])
       (use path_less_trans path_less_asym path_less_total in blast)+
  show ?thesis
    by (rule sorted_wrt_unique[of "path_less ResourceIdLess", OF _ assms(2) s])
       (use path_less_total assms(1) in \<open>auto simp: mset_sort_Slice\<close>)
qed







section \<open>The candidates of \<^verbatim>\<open>expandPath\<close>\<close>

lemma initial_candidate_weight:
  "tg_Vertex ops tg node = Inr resource \<Longrightarrow>
   checkCandidatesValidity ops resource path = Inr valid \<Longrightarrow>
     fst (initial_candidate ops tg path node) = [(node, if valid then 0 else - 1000)]"
  by (simp add: initial_candidate_def)

lemma initial_candidate_key:
  "fst ` set (fst (initial_candidate ops tg path node)) = {node}"
  by (auto simp: initial_candidate_def split: sum.splits)

lemma keys_list_update:
  assumes "k < length cs"
  shows "fst ` set ((cs[m := AList.update i v (cs ! m)]) ! k)
           = (if k = m then insert i (fst ` set (cs ! k)) else fst ` set (cs ! k))"
  using assms by (cases "k = m") (auto simp: AList.dom_update)

lemma addCandidates_length:
  "addCandidates ops path nb i resource nerr (cs, tg) = ((cs', tg'), er) \<Longrightarrow>
     length cs' = length cs"
  by (auto simp: addCandidates_def Let_def split: option.splits sum.splits bool.splits
      prod.splits if_splits)

lemma keys_update_mono:
  assumes "length c = length cs" and "\<forall>k < length cs. fst ` set (cs ! k) \<subseteq> fst ` set (c ! k)"
  shows "\<forall>k < length cs. fst ` set (cs ! k)
           \<subseteq> fst ` set ((c[m := AList.update i v (c ! m)]) ! k)"
proof (intro allI impI)
  fix k assume k: "k < length cs"
  then have "k < length c" using assms(1) by simp
  from keys_list_update[OF this, of m i v] assms(2) k
  show "fst ` set (cs ! k) \<subseteq> fst ` set ((c[m := AList.update i v (c ! m)]) ! k)"
    by (auto split: if_splits)
qed

lemma addCandidates_shapes:
  assumes "addCandidates ops path nb i resource nerr (cs, tg) = ((cs', tg'), er)"
  shows "cs' = cs
         \<or> (\<exists>m. cs' = cs[m := AList.update i 0 (cs ! m)])
         \<or> (\<exists>m v. cs' = cs[m := AList.update i v (cs ! m)])
         \<or> (\<exists>m v. cs' = (cs[m := AList.update i 0 (cs ! m)])
                            [m := AList.update i v (cs[m := AList.update i 0 (cs ! m)] ! m)])"
proof (cases "matchesNonBoundary ops i nb")
  case None
  then show ?thesis using assms by (simp add: addCandidates_def)
next
  case (Some m)
  show ?thesis
  proof (cases "map_of (cs ! m) i = None")
    case True
    show ?thesis
      using assms Some True unfolding addCandidates_def
      by (simp add: Let_def split: sum.splits bool.splits prod.splits if_splits) blast+
  next
    case False
    show ?thesis
      using assms Some False unfolding addCandidates_def
      by (simp add: Let_def split: sum.splits bool.splits prod.splits if_splits) blast+
  qed
qed

lemma addCandidates_keys:
  assumes "addCandidates ops path nb i resource nerr (cs, tg) = ((cs', tg'), er)"
  shows "\<forall>k < length cs. fst ` set (cs ! k) \<subseteq> fst ` set (cs' ! k)"
proof -
  have r: "\<forall>k < length cs. fst ` set (cs ! k) \<subseteq> fst ` set (cs ! k)" by simp
  have s1: "\<forall>k < length cs. fst ` set (cs ! k)
             \<subseteq> fst ` set ((cs[m := AList.update i v (cs ! m)]) ! k)" for m v
    using keys_update_mono[where c = cs and cs = cs and m = m and i = i and v = v] by simp
  have s2: "\<forall>k < length cs. fst ` set (cs ! k)
             \<subseteq> fst ` set (((cs[m := AList.update i 0 (cs ! m)])
                            [m := AList.update i v (cs[m := AList.update i 0 (cs ! m)] ! m)]) ! k)"
    for m v
    using keys_update_mono[where c = "cs[m := AList.update i 0 (cs ! m)]" and cs = cs and m = m and i = i and v = v] s1[of m 0] by simp
  from addCandidates_shapes[OF assms] show ?thesis
    using r s1 s2 by (elim disjE exE) simp_all
qed

lemma WalkGraph_addCandidates_keys:
  "WalkGraph (addCandidates ops path nb) vs nerr (cs, tg) = ((cs', tg'), er) \<Longrightarrow>
     length cs' = length cs \<and> (\<forall>k < length cs. fst ` set (cs ! k) \<subseteq> fst ` set (cs' ! k))"
proof (induction vs arbitrary: nerr cs tg)
  case Nil
  then show ?case by simp
next
  case (Cons v vs)
  obtain i resource where v: "v = (i, resource)" by (cases v) auto
  obtain c1 t1 e1 where a: "addCandidates ops path nb i resource nerr (cs, tg) = ((c1, t1), e1)"
    by (metis prod.exhaust)
  have w: "WalkGraph (addCandidates ops path nb) vs e1 (c1, t1) = ((cs', tg'), er)"
    using Cons.prems a v by simp
  have l: "length c1 = length cs" using addCandidates_length[OF a] .
  have 1: "\<forall>k < length cs. fst ` set (cs ! k) \<subseteq> fst ` set (c1 ! k)"
    using addCandidates_keys[OF a] .
  have 2: "length cs' = length c1 \<and> (\<forall>k < length c1. fst ` set (c1 ! k) \<subseteq> fst ` set (cs' ! k))"
    using Cons.IH[OF w] .
  show ?case
  proof (intro conjI allI impI)
    show "length cs' = length cs" using 2 l by simp
    fix k assume k: "k < length cs"
    have "fst ` set (cs ! k) \<subseteq> fst ` set (c1 ! k)" using 1 k by simp
    moreover have "fst ` set (c1 ! k) \<subseteq> fst ` set (cs' ! k)" using 2 k l by simp
    ultimately show "fst ` set (cs ! k) \<subseteq> fst ` set (cs' ! k)" by (rule subset_trans)
  qed
qed

lemma addCandidates_invalid_weight:
  assumes m: "matchesNonBoundary ops i nb = Some m" and len: "m < length cs"
    and ns: "checkNamespaceValidity ops resource = Inr True"
    and av: "snd (tg_AddVertex ops resource tg) = None
             \<or> snd (tg_AddVertex ops resource tg) = Some ErrVertexAlreadyExists"
    and w: "determineCandidateWeight ops i = Inr weight"
    and v: "checkCandidatesValidity ops resource path = Inr False"
  shows "map_of (fst (fst (addCandidates ops path nb i resource nerr (cs, tg))) ! m) i
           = Some ((case map_of (cs ! m) i of None \<Rightarrow> 0 | Some old \<Rightarrow> old) - 1000)"
proof (cases "map_of (cs ! m) i")
  case None
  have "fst (fst (addCandidates ops path nb i resource nerr (cs, tg)))
          = (cs[m := AList.update i 0 (cs ! m)])
              [m := AList.update i (the (map_of (cs[m := AList.update i 0 (cs ! m)] ! m) i) + (- 1000))
                      (cs[m := AList.update i 0 (cs ! m)] ! m)]"
    using m ns av w v None unfolding addCandidates_def
    by (auto simp: Let_def split: prod.splits)
  then show ?thesis using len None by (simp add: AList.update_conv')
next
  case (Some old)
  have "fst (fst (addCandidates ops path nb i resource nerr (cs, tg)))
          = cs[m := AList.update i (the (map_of (cs ! m) i) + (- 1000)) (cs ! m)]"
    using m ns av w v Some unfolding addCandidates_def
    by (auto simp: Let_def split: prod.splits)
  then show ?thesis using len Some by (simp add: AList.update_conv')
qed

lemma candidate_edges_target:
  assumes "sources \<noteq> []" and "\<forall>j < length cs. cs ! j \<noteq> []" and "k < length cs"
    and "c \<in> set (cs ! k)"
  shows "\<exists>s. (s, c) \<in> set (candidate_edges sources cs)"
  using assms
proof (induction cs arbitrary: sources k)
  case Nil
  then show ?case by simp
next
  case (Cons x cs)
  show ?case
  proof (cases k)
    case 0
    then have "c \<in> set x" using Cons.prems(4) by simp
    moreover obtain s where "s \<in> set sources" using Cons.prems(1) by (cases sources) auto
    ultimately have "(s, c) \<in> set (candidate_edges sources (x # cs))" by force
    then show ?thesis by blast
  next
    case (Suc k')
    have x: "x \<noteq> []" using Cons.prems(2) by auto
    have a: "\<forall>j < length cs. cs ! j \<noteq> []" using Cons.prems(2) by auto
    from Cons.IH[OF x a, of k'] Cons.prems(3,4) Suc
    obtain s where "(s, c) \<in> set (candidate_edges x cs)" by auto
    then have "(s, c) \<in> set (candidate_edges sources (x # cs))" by simp
    then show ?thesis by blast
  qed
qed

lemma candidate_edges_source:
  assumes "\<forall>j < length cs. cs ! j \<noteq> []" and "Suc k < length cs" and "c \<in> set (cs ! k)"
  shows "\<exists>t. (c, t) \<in> set (candidate_edges sources cs)"
  using assms
proof (induction cs arbitrary: sources k)
  case Nil
  then show ?case by simp
next
  case (Cons x cs)
  show ?case
  proof (cases k)
    case 0
    then have cx: "c \<in> set x" using Cons.prems(3) by simp
    obtain y cs' where cs: "cs = y # cs'" using Cons.prems(2) 0 by (cases cs) auto
    have "y \<noteq> []" using Cons.prems(1) cs by auto
    then obtain t where "t \<in> set y" by (cases y) auto
    then have "(c, t) \<in> set (candidate_edges x cs)" using cx cs by force
    then have "(c, t) \<in> set (candidate_edges sources (x # cs))" by simp
    then show ?thesis by blast
  next
    case (Suc k')
    have a: "\<forall>j < length cs. cs ! j \<noteq> []" using Cons.prems(1) by auto
    from Cons.IH[OF a, of k' x] Cons.prems(2,3) Suc
    obtain t where "(c, t) \<in> set (candidate_edges x cs)" by auto
    then have "(c, t) \<in> set (candidate_edges sources (x # cs))" by simp
    then show ?thesis by blast
  qed
qed

lemma edge_calls_selectable:
  assumes ne: "\<forall>j < length cs. cs ! j \<noteq> []" and k: "k < length cs" and c: "c \<in> set (cs ! k)"
  shows "(\<exists>s. (s, c) \<in> set (edge_calls src target cs))
       \<and> (\<exists>t. (c, t) \<in> set (edge_calls src target cs))"
proof
  obtain s where "(s, c) \<in> set (candidate_edges [(src, 0)] cs)"
    using candidate_edges_target[of "[(src, 0)]" cs k c] ne k c by auto
  then have "(s, c) \<in> set (edge_calls src target cs)" by (simp add: edge_calls_def)
  then show "\<exists>s. (s, c) \<in> set (edge_calls src target cs)" by blast
  show "\<exists>t. (c, t) \<in> set (edge_calls src target cs)"
  proof (cases "Suc k < length cs")
    case True
    obtain t where "(c, t) \<in> set (candidate_edges [(src, 0)] cs)"
      using candidate_edges_source[OF ne True c, of "[(src, 0)]"] by auto
    then have "(c, t) \<in> set (edge_calls src target cs)" by (simp add: edge_calls_def)
    then show ?thesis by blast
  next
    case False
    then have k': "k = length cs - 1" using k by simp
    have "cs \<noteq> []" using k by auto
    then have "last cs = cs ! k" using k' by (simp add: last_conv_nth)
    then have "c \<in> set (last cs)" using c by simp
    then have "(c, (target, 0)) \<in> set (edge_calls src target cs)"
      using k by (auto simp: edge_calls_def)
    then show ?thesis by blast
  qed
qed

lemma initial_candidates_length:
  "length (fst (initial_candidates ops tg path nb)) = length nb"
  by (simp add: initial_candidates_def)

lemma initial_candidates_key:
  "k < length nb \<Longrightarrow> fst ` set (fst (initial_candidates ops tg path nb) ! k) = {nb ! k}"
  by (simp add: initial_candidates_def initial_candidate_key)

lemma expandPath_candidates_keys:
  assumes "expandPath_candidates ops path resultGraph rawView tg = ((cs, tg'), errs)"
  shows "length cs = length path - 2 \<and> (\<forall>k < length cs. path ! Suc k \<in> fst ` set (cs ! k))"
proof -
  let ?nb = "take (length path - 2) (drop 1 path)"
  let ?c0 = "fst (initial_candidates ops tg path ?nb)"
  have lnb: "length ?nb = length path - 2" by auto
  have nbk: "?nb ! k = path ! Suc k" if "k < length ?nb" for k
    using that by simp
  have l0: "length ?c0 = length ?nb" by (rule initial_candidates_length)
  have k0: "\<forall>k < length ?c0. ?nb ! k \<in> fst ` set (?c0 ! k)"
    using initial_candidates_key[of _ ?nb ops tg path] l0 by simp
  have "length cs = length ?c0 \<and> (\<forall>k < length ?c0. fst ` set (?c0 ! k) \<subseteq> fst ` set (cs ! k))"
  proof (cases "snd (initial_candidates ops tg path ?nb) \<noteq> []")
    case True
    then have "cs = ?c0" using assms
      by (simp add: expandPath_candidates_def Let_def split: prod.splits)
    then show ?thesis by simp
  next
    case False
    obtain c1 t1 e1 where w1: "WalkGraph (addCandidates ops path ?nb) resultGraph [] (?c0, tg)
        = ((c1, t1), e1)" by (metis prod.exhaust)
    obtain c2 t2 e2 where w2: "WalkGraph (addCandidates ops path ?nb) rawView [] (c1, t1)
        = ((c2, t2), e2)" by (metis prod.exhaust)
    have "cs = c2" using assms False w1 w2
      by (simp add: expandPath_candidates_def Let_def split: prod.splits)
    moreover have "length c1 = length ?c0
        \<and> (\<forall>k < length ?c0. fst ` set (?c0 ! k) \<subseteq> fst ` set (c1 ! k))"
      using WalkGraph_addCandidates_keys[OF w1] .
    moreover have "length c2 = length c1
        \<and> (\<forall>k < length c1. fst ` set (c1 ! k) \<subseteq> fst ` set (c2 ! k))"
      using WalkGraph_addCandidates_keys[OF w2] .
    ultimately have l: "length cs = length ?c0" "length c1 = length ?c0"
      and s1: "\<forall>k < length ?c0. fst ` set (?c0 ! k) \<subseteq> fst ` set (c1 ! k)"
      and s2: "\<forall>k < length c1. fst ` set (c1 ! k) \<subseteq> fst ` set (cs ! k)"
      by simp_all
    show ?thesis
    proof (intro conjI allI impI)
      show "length cs = length ?c0" by (rule l(1))
      fix k assume k: "k < length ?c0"
      have "fst ` set (?c0 ! k) \<subseteq> fst ` set (c1 ! k)" using s1 k by blast
      moreover have "fst ` set (c1 ! k) \<subseteq> fst ` set (cs ! k)" using s2 k l(2) by simp
      ultimately show "fst ` set (?c0 ! k) \<subseteq> fst ` set (cs ! k)" by (rule subset_trans)
    qed
  qed
  then have lc: "length cs = length ?c0"
    and sc: "\<forall>k < length ?c0. fst ` set (?c0 ! k) \<subseteq> fst ` set (cs ! k)" by simp_all
  show ?thesis
  proof (intro conjI allI impI)
    show "length cs = length path - 2" using lc l0 lnb by simp
    fix k assume k: "k < length cs"
    then have k': "k < length ?c0" using lc by simp
    then have kn: "k < length ?nb" using l0 by simp
    have "?nb ! k \<in> fst ` set (?c0 ! k)" using k0 k' by blast
    moreover have "fst ` set (?c0 ! k) \<subseteq> fst ` set (cs ! k)" using sc k' by blast
    ultimately have "?nb ! k \<in> fst ` set (cs ! k)" by blast
    then show "path ! Suc k \<in> fst ` set (cs ! k)" using nbk[OF kn] by simp
  qed
qed

text \<open>
  Claim C6, as the code has it. A candidate that fails the validity checks is never
  removed: the maps of candidates \<^verbatim>\<open>expandPath\<close> ends with are as many as the inner
  nodes of the path, the node of the path is a key of its map, and a call of
  \<^verbatim>\<open>addCandidates\<close> keeps every key. \<^verbatim>\<open>addEdge\<close> is called with every candidate as
  target and with every candidate as source, whatever its weight. A node of the path that
  fails \<^verbatim>\<open>checkCandidatesValidity\<close> starts with the weight \<open>-1000\<close>; a resource
  that fails it in a call of \<^verbatim>\<open>addCandidates\<close> has \<open>-1000\<close> added, in place
  of its computed weight, to the weight it had (0 when it was no candidate yet).
\<close>

theorem expandPath_invalid_candidates_kept:
  assumes "expandPath_candidates ops path resultGraph rawView tg = ((candidates, tg'), errs)"
  shows "length candidates = length path - 2
    \<and> (\<forall>k < length candidates. path ! Suc k \<in> fst ` set (candidates ! k))
    \<and> (\<forall>k < length candidates. \<forall>c \<in> set (candidates ! k).
          (\<exists>s. (s, c) \<in> set (edge_calls src target candidates))
        \<and> (\<exists>t. (c, t) \<in> set (edge_calls src target candidates)))
    \<and> (\<forall>node resource. tg_Vertex ops tg node = Inr resource
            \<and> checkCandidatesValidity ops resource path = Inr False
          \<longrightarrow> fst (initial_candidate ops tg path node) = [(node, - 1000)])
    \<and> (\<forall>nb i resource nerr cs t cs' t' er.
          addCandidates ops path nb i resource nerr (cs, t) = ((cs', t'), er)
          \<longrightarrow> length cs' = length cs
              \<and> (\<forall>k < length cs. fst ` set (cs ! k) \<subseteq> fst ` set (cs' ! k)))
    \<and> (\<forall>nb i resource nerr cs t m weight.
          matchesNonBoundary ops i nb = Some m \<and> m < length cs
            \<and> checkNamespaceValidity ops resource = Inr True
            \<and> (snd (tg_AddVertex ops resource t) = None
                \<or> snd (tg_AddVertex ops resource t) = Some ErrVertexAlreadyExists)
            \<and> determineCandidateWeight ops i = Inr weight
            \<and> checkCandidatesValidity ops resource path = Inr False
          \<longrightarrow> map_of (fst (fst (addCandidates ops path nb i resource nerr (cs, t))) ! m) i
                = Some ((case map_of (cs ! m) i of None \<Rightarrow> 0 | Some old \<Rightarrow> old) - 1000))"
proof -
  have keys: "length candidates = length path - 2
      \<and> (\<forall>k < length candidates. path ! Suc k \<in> fst ` set (candidates ! k))"
    using expandPath_candidates_keys[OF assms] .
  have ne: "\<forall>j < length candidates. candidates ! j \<noteq> []"
  proof (intro allI impI)
    fix j assume "j < length candidates"
    then have "path ! Suc j \<in> fst ` set (candidates ! j)" using keys by blast
    then show "candidates ! j \<noteq> []" by auto
  qed
  have sel: "\<forall>k < length candidates. \<forall>c \<in> set (candidates ! k).
          (\<exists>s. (s, c) \<in> set (edge_calls src target candidates))
        \<and> (\<exists>t. (c, t) \<in> set (edge_calls src target candidates))"
  proof (intro allI impI ballI)
    fix k c assume "k < length candidates" and "c \<in> set (candidates ! k)"
    then show "(\<exists>s. (s, c) \<in> set (edge_calls src target candidates))
        \<and> (\<exists>t. (c, t) \<in> set (edge_calls src target candidates))"
      by (rule edge_calls_selectable[OF ne])
  qed
  have init: "\<forall>node resource. tg_Vertex ops tg node = Inr resource
            \<and> checkCandidatesValidity ops resource path = Inr False
          \<longrightarrow> fst (initial_candidate ops tg path node) = [(node, - 1000)]"
  proof (intro allI impI, elim conjE)
    fix node resource
    assume "tg_Vertex ops tg node = Inr resource"
      and "checkCandidatesValidity ops resource path = Inr False"
    then show "fst (initial_candidate ops tg path node) = [(node, - 1000)]"
      by (simp add: initial_candidate_def)
  qed
  have kept: "\<forall>nb i resource nerr cs t cs' t' er.
          addCandidates ops path nb i resource nerr (cs, t) = ((cs', t'), er)
          \<longrightarrow> length cs' = length cs
              \<and> (\<forall>k < length cs. fst ` set (cs ! k) \<subseteq> fst ` set (cs' ! k))"
  proof (intro allI impI)
    fix nb i resource nerr cs t cs' t' er
    assume a: "addCandidates ops path nb i resource nerr (cs, t) = ((cs', t'), er)"
    show "length cs' = length cs
        \<and> (\<forall>k < length cs. fst ` set (cs ! k) \<subseteq> fst ` set (cs' ! k))"
      using addCandidates_length[OF a] addCandidates_keys[OF a] by (rule conjI)
  qed
  have w: "\<forall>nb i resource nerr cs t m weight.
          matchesNonBoundary ops i nb = Some m \<and> m < length cs
            \<and> checkNamespaceValidity ops resource = Inr True
            \<and> (snd (tg_AddVertex ops resource t) = None
                \<or> snd (tg_AddVertex ops resource t) = Some ErrVertexAlreadyExists)
            \<and> determineCandidateWeight ops i = Inr weight
            \<and> checkCandidatesValidity ops resource path = Inr False
          \<longrightarrow> map_of (fst (fst (addCandidates ops path nb i resource nerr (cs, t))) ! m) i
                = Some ((case map_of (cs ! m) i of None \<Rightarrow> 0 | Some old \<Rightarrow> old) - 1000)"
  proof (intro allI impI, elim conjE)
    fix nb i resource nerr t m weight and cs :: "candidate_map list"
    assume a: "matchesNonBoundary ops i nb = Some m" "m < length cs"
      "checkNamespaceValidity ops resource = Inr True"
      "snd (tg_AddVertex ops resource t) = None
         \<or> snd (tg_AddVertex ops resource t) = Some ErrVertexAlreadyExists"
      "determineCandidateWeight ops i = Inr weight"
      "checkCandidatesValidity ops resource path = Inr False"
    show "map_of (fst (fst (addCandidates ops path nb i resource nerr (cs, t))) ! m) i
                = Some ((case map_of (cs ! m) i of None \<Rightarrow> 0 | Some old \<Rightarrow> old) - 1000)"
      by (rule addCandidates_invalid_weight[OF a])
  qed
  show ?thesis
    by (rule conjI[OF keys[THEN conjunct1] conjI[OF keys[THEN conjunct2]
          conjI[OF sel conjI[OF init conjI[OF kept w]]]]])
qed

lemma example_candidates_once:
  "expandPath_candidates example_path_ops example_phantom_path
      [(rid ''aws'' ''rds_proxy'' ''proxy'', rid ''aws'' ''rds_proxy'' ''proxy'')] []
      example_phantom_path
    = (([[(rid ''aws'' ''rds_proxy'' ''PHANTOM_a'', - 1000),
          (rid ''aws'' ''rds_proxy'' ''proxy'', - 1000)]],
        example_phantom_path @ [rid ''aws'' ''rds_proxy'' ''proxy'']), [])"
  by code_simp

theorem expandPath_invalid_candidates_kept_witness:
  "expandPath_candidates example_path_ops example_phantom_path
      [(rid ''aws'' ''rds_proxy'' ''proxy'', rid ''aws'' ''rds_proxy'' ''proxy'')] []
      example_phantom_path
    = (([[(rid ''aws'' ''rds_proxy'' ''PHANTOM_a'', - 1000),
          (rid ''aws'' ''rds_proxy'' ''proxy'', - 1000)]],
        example_phantom_path @ [rid ''aws'' ''rds_proxy'' ''proxy'']), [])
   \<and> (\<exists>s. (s, (rid ''aws'' ''rds_proxy'' ''proxy'', - 1000))
          \<in> set (edge_calls (rid ''aws'' ''lambda_function'' ''api'')
                  (rid ''aws'' ''rds_instance'' ''db'')
                  [[(rid ''aws'' ''rds_proxy'' ''PHANTOM_a'', - 1000),
                    (rid ''aws'' ''rds_proxy'' ''proxy'', - 1000)]]))
   \<and> (\<exists>t. ((rid ''aws'' ''rds_proxy'' ''proxy'', - 1000), t)
          \<in> set (edge_calls (rid ''aws'' ''lambda_function'' ''api'')
                  (rid ''aws'' ''rds_instance'' ''db'')
                  [[(rid ''aws'' ''rds_proxy'' ''PHANTOM_a'', - 1000),
                    (rid ''aws'' ''rds_proxy'' ''proxy'', - 1000)]]))"
proof -
  let ?cs = "[[(rid ''aws'' ''rds_proxy'' ''PHANTOM_a'', - 1000 :: int),
               (rid ''aws'' ''rds_proxy'' ''proxy'', - 1000)]]"
  note inst = expandPath_invalid_candidates_kept[OF example_candidates_once,
      of "rid ''aws'' ''lambda_function'' ''api''" "rid ''aws'' ''rds_instance'' ''db''"]
  have k: "0 < length ?cs" by simp
  have c: "(rid ''aws'' ''rds_proxy'' ''proxy'', - 1000) \<in> set (?cs ! 0)" by simp
  note s = inst[THEN conjunct2, THEN conjunct2, THEN conjunct1, rule_format, OF k c]
  show ?thesis by (rule conjI[OF example_candidates_once s])
qed

text \<open>
  An existing proxy that is a vertex of the result graph and of the raw view is visited by
  both walks, fails the validity checks in both, and ends with the weight \<open>-2000\<close>.
\<close>

theorem expandPath_weight_accumulates_counterexample:
  "map_of (fst (fst (expandPath_candidates example_path_ops example_phantom_path
      [(rid ''aws'' ''rds_proxy'' ''proxy'', rid ''aws'' ''rds_proxy'' ''proxy'')]
      [(rid ''aws'' ''rds_proxy'' ''proxy'', rid ''aws'' ''rds_proxy'' ''proxy'')]
      example_phantom_path)) ! 0) (rid ''aws'' ''rds_proxy'' ''proxy'') = Some (- 2000)
   \<and> checkCandidatesValidity example_path_ops (rid ''aws'' ''rds_proxy'' ''proxy'')
        example_phantom_path = Inr False"
  by code_simp

end
